theory Spec2Isabelle
  imports Main "HOL-Library.AList"
begin

section \<open>Python values, exceptions and library functions\<close>

text \<open>
  The module \<^verbatim>\<open>oauth2_auth.py\<close> keeps in its token fields whatever the token endpoint's
  JSON reply holds, and writes the same values back to the token file. The fields are
  therefore modelled as JSON values (Python's \<^verbatim>\<open>None\<close> is \<open>JNull\<close>); a JSON object is
  an association list in insertion order, as a Python \<^verbatim>\<open>dict\<close> is. JSON floats are not
  modelled.
\<close>

datatype json =
    JNull
  | JBool bool
  | JInt int
  | JString string
  | JArray "json list"
  | JObject "(string \<times> json) list"

text \<open>Python's truth value of an object, as \<^verbatim>\<open>if x\<close> and \<^verbatim>\<open>not x\<close> test it.\<close>

fun truthy :: "json \<Rightarrow> bool" where
  "truthy JNull = False"
| "truthy (JBool b) = b"
| "truthy (JInt n) = (n \<noteq> 0)"
| "truthy (JString s) = (s \<noteq> [])"
| "truthy (JArray xs) = (xs \<noteq> [])"
| "truthy (JObject kvs) = (kvs \<noteq> [])"

text \<open>
  The exceptions the module can raise. \<open>ConnectionError\<close>, \<open>HTTPError\<close> and
  \<open>JSONDecodeError\<close> are the subclasses of \<^verbatim>\<open>requests.RequestException\<close> raised by
  \<^verbatim>\<open>requests.post\<close>, \<^verbatim>\<open>raise_for_status\<close> and \<^verbatim>\<open>response.json\<close>; \<open>OSError\<close> is a
  failed \<^verbatim>\<open>open\<close>.
\<close>

datatype error =
    ValueError string
  | KeyError string
  | TypeError
  | AttributeError
  | OverflowError
  | ConnectionError
  | HTTPError nat
  | JSONDecodeError
  | OSError

text \<open>\<^verbatim>\<open>key in x\<close>, \<^verbatim>\<open>x[key]\<close> and \<^verbatim>\<open>x.get(key, default)\<close> for a string key.\<close>

fun is_substring :: "string \<Rightarrow> string \<Rightarrow> bool" where
  "is_substring sub [] = (sub = [])"
| "is_substring sub (c # cs) = (take (length sub) (c # cs) = sub \<or> is_substring sub cs)"

fun py_contains :: "string \<Rightarrow> json \<Rightarrow> error + bool" where
  "py_contains k (JObject kvs) = Inr (map_of kvs k \<noteq> None)"
| "py_contains k (JArray xs) = Inr (JString k \<in> set xs)"
| "py_contains k (JString s) = Inr (is_substring k s)"
| "py_contains k _ = Inl TypeError"

fun py_getitem :: "json \<Rightarrow> string \<Rightarrow> error + json" where
  "py_getitem (JObject kvs) k = (case map_of kvs k of None \<Rightarrow> Inl (KeyError k) | Some v \<Rightarrow> Inr v)"
| "py_getitem _ k = Inl TypeError"

fun py_get :: "json \<Rightarrow> string \<Rightarrow> json \<Rightarrow> error + json" where
  "py_get (JObject kvs) k dflt = Inr (case map_of kvs k of None \<Rightarrow> dflt | Some v \<Rightarrow> v)"
| "py_get _ k dflt = Inl AttributeError"

subsection \<open>Datetimes and their ISO format\<close>

text \<open>
  A Python \<^verbatim>\<open>datetime\<close>: the calendar fields and, for an aware datetime, its UTC offset
  in microseconds (\<open>None\<close> for a naive one). \<^verbatim>\<open>datetime.now()\<close> returns a naive datetime,
  so every expiry the module computes is naive; an expiry read from the token file is
  whatever \<^verbatim>\<open>datetime.fromisoformat\<close> makes of the string found there, and that is an aware
  datetime when the string ends in an offset.
\<close>

record datetime =
  year :: nat
  month :: nat
  day :: nat
  hour :: nat
  minute :: nat
  second :: nat
  microsecond :: nat
  utcoffset :: "int option"

definition is_leap :: "nat \<Rightarrow> bool" where
  "is_leap y = (y mod 4 = 0 \<and> (y mod 100 \<noteq> 0 \<or> y mod 400 = 0))"

definition days_in_month :: "nat \<Rightarrow> nat \<Rightarrow> nat" where
  "days_in_month y m =
     (if m = 2 then (if is_leap y then 29 else 28)
      else if m \<in> {4, 6, 9, 11} then 30 else 31)"

text \<open>
  The values a Python \<^verbatim>\<open>datetime\<close> object can hold; the offset of a \<^verbatim>\<open>timezone\<close> is
  strictly between minus and plus 24 hours.
\<close>

definition valid_datetime :: "datetime \<Rightarrow> bool" where
  "valid_datetime d =
     (1 \<le> year d \<and> year d \<le> 9999 \<and> 1 \<le> month d \<and> month d \<le> 12 \<and>
      1 \<le> day d \<and> day d \<le> days_in_month (year d) (month d) \<and>
      hour d < 24 \<and> minute d < 60 \<and> second d < 60 \<and> microsecond d < 1000000 \<and>
      (case utcoffset d of None \<Rightarrow> True | Some off \<Rightarrow> \<bar>off\<bar> < 86400000000))"

text \<open>
  \<^verbatim>\<open>a >= b\<close>, as \<^verbatim>\<open>datetime._cmp\<close> decides it: with equal offsets (two naive datetimes
  among them) the fields are compared in order; a naive and an aware datetime do not
  compare, \<^verbatim>\<open>TypeError\<close>; two aware datetimes with different offsets are compared as
  instants, \<open>utc_instant\<close> being the microseconds since the start of year 1, in UTC.
\<close>

definition dt_tuple :: "datetime \<Rightarrow> nat list" where
  "dt_tuple d = [year d, month d, day d, hour d, minute d, second d, microsecond d]"

fun list_ge :: "nat list \<Rightarrow> nat list \<Rightarrow> bool" where
  "list_ge (x # xs) (y # ys) = (y < x \<or> (x = y \<and> list_ge xs ys))"
| "list_ge _ [] = True"
| "list_ge [] (y # ys) = False"

definition days_before_year :: "nat \<Rightarrow> nat" where
  "days_before_year y = (let p = y - 1 in p * 365 + p div 4 + p div 400 - p div 100)"

definition days_before_month :: "nat \<Rightarrow> nat \<Rightarrow> nat" where
  "days_before_month y m = sum_list (map (days_in_month y) [1..<m])"

definition utc_instant :: "datetime \<Rightarrow> int" where
  "utc_instant d =
     ((int (days_before_year (year d) + days_before_month (year d) (month d) + day d) * 24
         + int (hour d)) * 3600 + int (minute d * 60 + second d)) * 1000000
     + int (microsecond d)
     - (case utcoffset d of None \<Rightarrow> 0 | Some off \<Rightarrow> off)"

definition dt_ge :: "datetime \<Rightarrow> datetime \<Rightarrow> error + bool" where
  "dt_ge a b =
     (if utcoffset a = utcoffset b then Inr (list_ge (dt_tuple a) (dt_tuple b))
      else case (utcoffset a, utcoffset b) of
             (Some x, Some y) \<Rightarrow> Inr (utc_instant b \<le> utc_instant a)
           | _ \<Rightarrow> Inl TypeError)"

text \<open>Decimal fields of fixed width, as \<^verbatim>\<open>%04d\<close> and \<^verbatim>\<open>%02d\<close> print them.\<close>

fun zfill :: "nat \<Rightarrow> nat \<Rightarrow> string" where
  "zfill 0 n = []"
| "zfill (Suc w) n = zfill w (n div 10) @ [char_of (48 + n mod 10)]"

definition is_digit :: "char \<Rightarrow> bool" where
  "is_digit c = (48 \<le> (of_char c :: nat) \<and> (of_char c :: nat) \<le> 57)"

fun parse_digits :: "nat \<Rightarrow> string \<Rightarrow> nat option" where
  "parse_digits acc [] = Some acc"
| "parse_digits acc (c # cs) =
     (if is_digit c then parse_digits (acc * 10 + (of_char c - 48)) cs else None)"

definition digits_at :: "string \<Rightarrow> nat \<Rightarrow> nat \<Rightarrow> nat option" where
  "digits_at s i w = (if i + w \<le> length s then parse_digits 0 (take w (drop i s)) else None)"

definition char_at :: "string \<Rightarrow> nat \<Rightarrow> char \<Rightarrow> bool" where
  "char_at s i c = (i < length s \<and> s ! i = c)"

text \<open>
  \<^verbatim>\<open>datetime.isoformat()\<close>: \<^verbatim>\<open>YYYY-MM-DDTHH:MM:SS\<close>, followed by \<^verbatim>\<open>.ffffff\<close> when the
  microsecond is not zero, and for an aware datetime by its offset, \<^verbatim>\<open>+HH:MM\<close> or
  \<^verbatim>\<open>-HH:MM\<close>, with \<^verbatim>\<open>:SS\<close> and \<^verbatim>\<open>.ffffff\<close> when the offset is not a whole number of
  minutes or seconds.
\<close>

definition format_offset :: "int \<Rightarrow> string" where
  "format_offset off =
     (let us = nat (\<bar>off\<bar> mod 1000000); secs = nat (\<bar>off\<bar> div 1000000);
          hh = secs div 3600; mm = secs div 60 mod 60; ss = secs mod 60
      in (if off < 0 then ''-'' else ''+'') @ zfill 2 hh @ '':'' @ zfill 2 mm @
         (if ss = 0 \<and> us = 0 then []
          else '':'' @ zfill 2 ss @ (if us = 0 then [] else ''.'' @ zfill 6 us)))"

definition isoformat :: "datetime \<Rightarrow> string" where
  "isoformat d =
     zfill 4 (year d) @ ''-'' @ zfill 2 (month d) @ ''-'' @ zfill 2 (day d) @ ''T'' @
     zfill 2 (hour d) @ '':'' @ zfill 2 (minute d) @ '':'' @ zfill 2 (second d) @
     (if microsecond d = 0 then [] else ''.'' @ zfill 6 (microsecond d)) @
     (case utcoffset d of None \<Rightarrow> [] | Some off \<Rightarrow> format_offset off)"

text \<open>
  \<^verbatim>\<open>datetime.fromisoformat\<close> accepts more strings with every Python version: 3.7 to 3.10
  read \<^verbatim>\<open>YYYY-MM-DD[*HH[:MM[:SS[.fff[fff]]]][+HH:MM[:SS[.ffffff]]]]\<close>, 3.11 and later most of
  ISO 8601. \<open>parse_isoformat\<close> is the part on which all versions agree, on acceptance and on
  the value: the date \<^verbatim>\<open>YYYY-MM-DD\<close> alone, or followed by \<^verbatim>\<open>T\<close> or a space, a time
  \<^verbatim>\<open>HH:MM\<close>, \<^verbatim>\<open>HH:MM:SS\<close>, \<^verbatim>\<open>HH:MM:SS.fff\<close> or \<^verbatim>\<open>HH:MM:SS.ffffff\<close> and, optionally, an
  offset: a sign and \<^verbatim>\<open>HH:MM\<close>, \<^verbatim>\<open>HH:MM:SS\<close> or \<^verbatim>\<open>HH:MM:SS.ffffff\<close>. The time ends at
  the first sign. \<open>None\<close> means that the string is not of this part, not that Python
  rejects it.
\<close>

definition parse_clock :: "string \<Rightarrow> (nat \<times> nat \<times> nat \<times> nat) option" where
  "parse_clock t =
     (case digits_at t 0 2 of None \<Rightarrow> None | Some h \<Rightarrow>
      if \<not> char_at t 2 CHR '':'' then None
      else case digits_at t 3 2 of None \<Rightarrow> None | Some mi \<Rightarrow>
        if length t = 5 then Some (h, mi, 0, 0)
        else if \<not> char_at t 5 CHR '':'' then None
        else case digits_at t 6 2 of None \<Rightarrow> None | Some s \<Rightarrow>
          if length t = 8 then Some (h, mi, s, 0)
          else if \<not> char_at t 8 CHR ''.'' then None
          else if length t = 12 then map_option (\<lambda>f. (h, mi, s, f * 1000)) (digits_at t 9 3)
          else if length t = 15 then map_option (\<lambda>f. (h, mi, s, f)) (digits_at t 9 6)
          else None)"

text \<open>
  The offset that follows the time: nothing (naive), or a sign and a clock reading. An
  offset of less than a second is not of the common part: CPython reads it as UTC, its
  pure-Python twin as it is written.
\<close>

definition parse_offset :: "string \<Rightarrow> int option option" where
  "parse_offset z =
     (case z of
        [] \<Rightarrow> Some None
      | sign # body \<Rightarrow>
          if length body = 12 then None
          else case parse_clock body of
                 None \<Rightarrow> None
               | Some (h, mi, s, us) \<Rightarrow>
                   if h < 24 \<and> mi < 60 \<and> s < 60 \<and> (0 < h * 3600 + mi * 60 + s \<or> us = 0)
                   then Some (Some ((if sign = CHR ''-'' then - 1 else 1) *
                                    (int (h * 3600 + mi * 60 + s) * 1000000 + int us)))
                   else None)"

definition not_sign :: "char \<Rightarrow> bool" where
  "not_sign c = (c \<noteq> CHR ''+'' \<and> c \<noteq> CHR ''-'')"

definition parse_isoformat :: "string \<Rightarrow> datetime option" where
  "parse_isoformat s =
     (case digits_at s 0 4 of None \<Rightarrow> None | Some y \<Rightarrow>
      if \<not> char_at s 4 CHR ''-'' then None
      else case digits_at s 5 2 of None \<Rightarrow> None | Some m \<Rightarrow>
        if \<not> char_at s 7 CHR ''-'' then None
        else case digits_at s 8 2 of None \<Rightarrow> None | Some d \<Rightarrow>
          (case (if length s = 10 then Some ((0, 0, 0, 0), None)
                 else if \<not> (char_at s 10 CHR ''T'' \<or> char_at s 10 CHR '' '') then None
                 else case parse_clock (takeWhile not_sign (drop 11 s)) of
                        None \<Rightarrow> None
                      | Some c \<Rightarrow> map_option (Pair c) (parse_offset (dropWhile not_sign (drop 11 s))))
           of None \<Rightarrow> None
            | Some ((h, mi, se, us), off) \<Rightarrow>
                let r = \<lparr>year = y, month = m, day = d, hour = h, minute = mi, second = se,
                         microsecond = us, utcoffset = off\<rparr>
                in if valid_datetime r then Some r else None))"

text \<open>
  The datetimes that every Python reads back from the string that \<open>isoformat\<close> makes of
  them: the valid ones that are naive, or whose offset is zero or at least a second. Every
  expiry that the module computes is one, \<^verbatim>\<open>datetime.now()\<close> being naive.
\<close>

definition storable_datetime :: "datetime \<Rightarrow> bool" where
  "storable_datetime d =
     (valid_datetime d \<and>
      (case utcoffset d of None \<Rightarrow> True | Some off \<Rightarrow> off = 0 \<or> 1000000 \<le> \<bar>off\<bar>))"

subsection \<open>URL-safe base64 and query encoding\<close>

definition b64_alphabet :: string where
  "b64_alphabet = ''ABCDEFGHIJKLMNOPQRSTUVWXYZabcdefghijklmnopqrstuvwxyz0123456789-_''"

definition b64_char :: "nat \<Rightarrow> char" where
  "b64_char n = b64_alphabet ! (n mod 64)"

text \<open>\<^verbatim>\<open>base64.urlsafe_b64encode\<close>: three bytes give four characters, the tail is padded.\<close>

fun urlsafe_b64encode :: "string \<Rightarrow> string" where
  "urlsafe_b64encode (a # b # c # rest) =
     (let n = of_char a * 65536 + of_char b * 256 + of_char c
      in [b64_char (n div 262144), b64_char (n div 4096), b64_char (n div 64), b64_char n])
     @ urlsafe_b64encode rest"
| "urlsafe_b64encode [a, b] =
     (let n = of_char a * 65536 + of_char b * 256
      in [b64_char (n div 262144), b64_char (n div 4096), b64_char (n div 64), CHR ''=''])"
| "urlsafe_b64encode [a] =
     (let n = of_char a * 65536
      in [b64_char (n div 262144), b64_char (n div 4096), CHR ''='', CHR ''=''])"
| "urlsafe_b64encode [] = []"

text \<open>\<^verbatim>\<open>s.rstrip(c)\<close> for a single character.\<close>

definition rstrip :: "char \<Rightarrow> string \<Rightarrow> string" where
  "rstrip c s = rev (dropWhile (\<lambda>x. x = c) (rev s))"

text \<open>
  \<^verbatim>\<open>urllib.parse.quote_plus\<close>, byte by byte: unreserved characters stay, a space becomes
  \<^verbatim>\<open>+\<close>, every other byte becomes \<^verbatim>\<open>%XX\<close>. \<^verbatim>\<open>urlencode\<close> joins the quoted pairs.
\<close>

definition always_safe :: string where
  "always_safe = ''ABCDEFGHIJKLMNOPQRSTUVWXYZabcdefghijklmnopqrstuvwxyz0123456789_.-~''"

definition hex_digit :: "nat \<Rightarrow> char" where
  "hex_digit n = ''0123456789ABCDEF'' ! (n mod 16)"

definition quote_char :: "char \<Rightarrow> string" where
  "quote_char c =
     (if c \<in> set always_safe then [c]
      else if c = CHR '' '' then ''+''
      else [CHR ''%'', hex_digit (of_char c div 16), hex_digit (of_char c)])"

definition quote_plus :: "string \<Rightarrow> string" where
  "quote_plus s = concat (map quote_char s)"

fun join_with :: "string \<Rightarrow> string list \<Rightarrow> string" where
  "join_with sep [] = []"
| "join_with sep [x] = x"
| "join_with sep (x # y # ys) = x @ sep @ join_with sep (y # ys)"

definition urlencode :: "(string \<times> string) list \<Rightarrow> string" where
  "urlencode params = join_with ''&'' (map (\<lambda>(k, v). quote_plus k @ ''='' @ quote_plus v) params)"

subsection \<open>Library functions taken as parameters\<close>

text \<open>
  \<^verbatim>\<open>hashlib.sha256(b).digest()\<close>, the builtin \<^verbatim>\<open>int(x)\<close> and
  \<^verbatim>\<open>d + timedelta(seconds=n)\<close> are parameters of the model: no property below depends on
  what they compute, only on where the module calls them. \<open>other_isoformat\<close> is what the
  running Python's \<^verbatim>\<open>datetime.fromisoformat\<close> makes of a string on which the versions
  differ, \<open>None\<close> for \<^verbatim>\<open>ValueError\<close>.
\<close>

record pylib =
  sha256 :: "string \<Rightarrow> string"
  py_int :: "json \<Rightarrow> error + int"
  plus_seconds :: "datetime \<Rightarrow> int \<Rightarrow> error + datetime"
  other_isoformat :: "string \<Rightarrow> datetime option"

text \<open>
  \<^verbatim>\<open>datetime.fromisoformat\<close>, \<open>None\<close> for \<^verbatim>\<open>ValueError\<close>: the value on which all versions
  agree when the string is of that part; a rejection when the string has fewer than seven
  characters, as no version reads a date from so few; and otherwise what the running
  version decides.
\<close>

definition fromisoformat :: "pylib \<Rightarrow> string \<Rightarrow> datetime option" where
  "fromisoformat L s =
     (case parse_isoformat s of
        Some d \<Rightarrow> Some d
      | None \<Rightarrow> if length s < 7 then None else other_isoformat L s)"

text \<open>The two draws from \<^verbatim>\<open>secrets\<close> that one authorization request makes.\<close>

record entropy =
  token_urlsafe :: string
  token_bytes :: string

section \<open>The data model of \<^verbatim>\<open>oauth2_auth.py\<close>\<close>

record OAuth2Config =
  client_id :: string
  client_secret :: string
  authorization_url :: string
  token_url :: string
  redirect_uri :: string
  scope :: string
  service_name :: string

record OAuth2Token =
  access_token :: json
  refresh_token :: json
  expires_at :: "datetime option"
  token_type :: json
  scope :: json

text \<open>
  What \<^verbatim>\<open>open\<close> and \<^verbatim>\<open>json.load\<close> find at a path: a JSON document, or anything else
  (\<open>Malformed\<close>: unreadable, or not JSON). \<^verbatim>\<open>json.dump\<close> followed by \<^verbatim>\<open>json.load\<close> is
  taken to return the value written, so a written file holds its document.
\<close>

datatype file_content = Malformed | Document json

text \<open>
  One \<^verbatim>\<open>requests.post\<close> call, and what comes back: a transport failure, or a response with
  its status code and its body as \<^verbatim>\<open>response.json()\<close> reads it (\<open>None\<close> when the body
  is not JSON).
\<close>

record http_request =
  url :: string
  data :: "(string \<times> json) list"
  headers :: "(string \<times> string) list"

datatype http_outcome = Transport_failure | Response nat "json option"

text \<open>
  The manager's attributes, together with the environment it acts on: the file system
  (\<open>disk\<close>, and \<open>writable\<close>: whether opening a path for writing succeeds) and the log of
  the requests sent so far (\<open>posted\<close>). \<open>code_verifiers\<close> is \<open>None\<close> until
  \<^verbatim>\<open>_store_code_verifier\<close> creates the attribute. \<open>tokens\<close> is a \<^verbatim>\<open>dict\<close> in insertion order.
\<close>

record OAuth2Manager =
  tokens :: "(string \<times> OAuth2Token) list"
  configs :: "string \<rightharpoonup> OAuth2Config"
  token_store_path :: string
  code_verifiers :: "(string \<rightharpoonup> string) option"
  disk :: "string \<rightharpoonup> file_content"
  writable :: "string \<Rightarrow> bool"
  posted :: "http_request list"

section \<open>Persistence helpers\<close>

definition token_to_json :: "OAuth2Token \<Rightarrow> json" where
  "token_to_json tok = JObject
     [(''access_token'', access_token tok),
      (''refresh_token'', refresh_token tok),
      (''expires_at'', (case expires_at tok of None \<Rightarrow> JNull | Some d \<Rightarrow> JString (isoformat d))),
      (''token_type'', token_type tok),
      (''scope'', OAuth2Token.scope tok)]"

definition serialize_tokens :: "(string \<times> OAuth2Token) list \<Rightarrow> (string \<times> json) list" where
  "serialize_tokens ts = foldl (\<lambda>acc (svc, tok). AList.update svc (token_to_json tok) acc) [] ts"

definition write_file :: "OAuth2Manager \<Rightarrow> string \<Rightarrow> json \<Rightarrow> error + OAuth2Manager" where
  "write_file m path doc =
     (if writable m path then Inr (m\<lparr>disk := (disk m)(path \<mapsto> Document doc)\<rparr>) else Inl OSError)"

text \<open>\<^verbatim>\<open>_save_tokens\<close>: best effort, every exception is caught and logged.\<close>

definition save_tokens :: "OAuth2Manager \<Rightarrow> OAuth2Manager" where
  "save_tokens m =
     (if token_store_path m = [] then m
      else case write_file m (token_store_path m) (JObject (serialize_tokens (tokens m))) of
             Inl e \<Rightarrow> m
           | Inr m' \<Rightarrow> m')"

definition parse_expires_at :: "pylib \<Rightarrow> json \<Rightarrow> error + datetime option" where
  "parse_expires_at L v =
     (if truthy v then
        (case v of
           JString s \<Rightarrow> (case fromisoformat L s of
                           None \<Rightarrow> Inl (ValueError ''Invalid isoformat string'')
                         | Some d \<Rightarrow> Inr (Some d))
         | _ \<Rightarrow> Inl TypeError)
      else Inr None)"

definition token_from_json :: "pylib \<Rightarrow> json \<Rightarrow> error + OAuth2Token" where
  "token_from_json L tok =
     (case py_get tok ''expires_at'' JNull of Inl e \<Rightarrow> Inl e | Inr ex \<Rightarrow>
      case py_get tok ''access_token'' JNull of Inl e \<Rightarrow> Inl e | Inr at \<Rightarrow>
      case py_get tok ''refresh_token'' JNull of Inl e \<Rightarrow> Inl e | Inr rt \<Rightarrow>
      case parse_expires_at L ex of Inl e \<Rightarrow> Inl e | Inr exd \<Rightarrow>
      case py_get tok ''token_type'' (JString ''Bearer'') of Inl e \<Rightarrow> Inl e | Inr tt \<Rightarrow>
      case py_get tok ''scope'' JNull of Inl e \<Rightarrow> Inl e | Inr sc \<Rightarrow>
        Inr \<lparr>access_token = at, refresh_token = rt, expires_at = exd, token_type = tt,
             scope = sc\<rparr>)"

text \<open>
  The loop of \<^verbatim>\<open>_load_tokens\<close> over \<^verbatim>\<open>data.items()\<close>: each entry is stored as soon as it
  is built, and the first exception ends the loop.
\<close>

fun load_entries ::
  "pylib \<Rightarrow> (string \<times> json) list \<Rightarrow> (string \<times> OAuth2Token) list \<Rightarrow>
   error option \<times> (string \<times> OAuth2Token) list" where
  "load_entries L [] ts = (None, ts)"
| "load_entries L ((svc, tok) # rest) ts =
     (case token_from_json L tok of
        Inl e \<Rightarrow> (Some e, ts)
      | Inr t \<Rightarrow> load_entries L rest (AList.update svc t ts))"

definition read_json_file :: "OAuth2Manager \<Rightarrow> string \<Rightarrow> error + json" where
  "read_json_file m path =
     (case disk m path of
        None \<Rightarrow> Inl OSError
      | Some Malformed \<Rightarrow> Inl JSONDecodeError
      | Some (Document j) \<Rightarrow> Inr j)"

text \<open>\<^verbatim>\<open>_load_tokens\<close>: every exception is caught and logged.\<close>

definition load_tokens :: "pylib \<Rightarrow> OAuth2Manager \<Rightarrow> OAuth2Manager" where
  "load_tokens L m =
     (let path = token_store_path m in
      if path = [] \<or> disk m path = None then m
      else case read_json_file m path of
             Inl e \<Rightarrow> m
           | Inr (JObject items) \<Rightarrow> m\<lparr>tokens := snd (load_entries L items (tokens m))\<rparr>
           | Inr _ \<Rightarrow> m)"

section \<open>The manager's operations\<close>

text \<open>
  \<^verbatim>\<open>__init__\<close>, given the constructor's argument, the value of the environment variable
  \<^verbatim>\<open>OAUTH2_TOKEN_STORE\<close> and the file system. \<open>store_path\<close> is
  \<^verbatim>\<open>token_store_path or os.getenv("OAUTH2_TOKEN_STORE", ".oauth_tokens.json")\<close>.
\<close>

definition store_path :: "string option \<Rightarrow> string option \<Rightarrow> string" where
  "store_path path_arg env_store =
     (let dflt = (case env_store of None \<Rightarrow> ''.oauth_tokens.json'' | Some v \<Rightarrow> v)
      in case path_arg of None \<Rightarrow> dflt | Some p \<Rightarrow> if p = [] then dflt else p)"

definition init ::
  "pylib \<Rightarrow> string option \<Rightarrow> string option \<Rightarrow> (string \<rightharpoonup> file_content) \<Rightarrow>
   (string \<Rightarrow> bool) \<Rightarrow> OAuth2Manager" where
  "init L path_arg env_store dsk wr =
     load_tokens L
       \<lparr>tokens = [], configs = Map.empty, token_store_path = store_path path_arg env_store,
        code_verifiers = None, disk = dsk, writable = wr, posted = []\<rparr>"

definition add_service_config :: "OAuth2Manager \<Rightarrow> string \<Rightarrow> OAuth2Config \<Rightarrow> OAuth2Manager" where
  "add_service_config m name config = m\<lparr>configs := (configs m)(name \<mapsto> config)\<rparr>"

definition not_configured :: "string \<Rightarrow> error" where
  "not_configured name = ValueError (''Service '' @ name @ '' not configured'')"

text \<open>The key \<^verbatim>\<open>f"{service_name}:{state}"\<close> of the verifier dictionary.\<close>

definition verifier_key :: "string \<Rightarrow> string \<Rightarrow> string" where
  "verifier_key name state = name @ '':'' @ state"

definition store_code_verifier ::
  "OAuth2Manager \<Rightarrow> string \<Rightarrow> string \<Rightarrow> string \<Rightarrow> OAuth2Manager" where
  "store_code_verifier m name state code_verifier =
     m\<lparr>code_verifiers :=
         Some ((case code_verifiers m of None \<Rightarrow> Map.empty | Some d \<Rightarrow> d)
               (verifier_key name state \<mapsto> code_verifier))\<rparr>"

text \<open>\<^verbatim>\<open>_get_code_verifier\<close>: \<^verbatim>\<open>pop\<close> returns the verifier and removes the key.\<close>

definition get_code_verifier ::
  "OAuth2Manager \<Rightarrow> string \<Rightarrow> string \<Rightarrow> (error + string) \<times> OAuth2Manager" where
  "get_code_verifier m name state =
     (case code_verifiers m of
        None \<Rightarrow> (Inl (ValueError ''No code verifier found''), m)
      | Some d \<Rightarrow>
          (case d (verifier_key name state) of
             None \<Rightarrow> (Inl (ValueError ''Invalid state parameter''), m)
           | Some v \<Rightarrow> (Inr v, m\<lparr>code_verifiers := Some (d(verifier_key name state := None))\<rparr>)))"

definition authorization_params :: "OAuth2Config \<Rightarrow> string \<Rightarrow> string \<Rightarrow> (string \<times> string) list" where
  "authorization_params config state code_challenge =
     [(''response_type'', ''code''),
      (''client_id'', client_id config),
      (''redirect_uri'', redirect_uri config),
      (''scope'', OAuth2Config.scope config),
      (''state'', state),
      (''code_challenge'', code_challenge),
      (''code_challenge_method'', ''S256'')]"

text \<open>The parameters that precede the challenge.\<close>

definition leading_params :: "OAuth2Config \<Rightarrow> string \<Rightarrow> (string \<times> string) list" where
  "leading_params config state =
     [(''response_type'', ''code''),
      (''client_id'', client_id config),
      (''redirect_uri'', redirect_uri config),
      (''scope'', OAuth2Config.scope config),
      (''state'', state)]"

definition generate_authorization_url ::
  "pylib \<Rightarrow> entropy \<Rightarrow> OAuth2Manager \<Rightarrow> string \<Rightarrow> string option \<Rightarrow>
   (error + string \<times> string) \<times> OAuth2Manager" where
  "generate_authorization_url L R m name state_arg =
     (case configs m name of
        None \<Rightarrow> (Inl (not_configured name), m)
      | Some config \<Rightarrow>
          (let state = (case state_arg of
                          None \<Rightarrow> token_urlsafe R
                        | Some s \<Rightarrow> if s = [] then token_urlsafe R else s);
               code_verifier = rstrip CHR ''='' (urlsafe_b64encode (token_bytes R));
               code_challenge = rstrip CHR ''='' (urlsafe_b64encode (sha256 L code_verifier));
               params = authorization_params config state code_challenge;
               m' = store_code_verifier m name state code_verifier;
               auth_url = authorization_url config @ ''?'' @ urlencode params
           in (Inr (auth_url, state), m')))"

text \<open>
  The dictionary lookup \<^verbatim>\<open>self._code_verifiers.get(f"{name}:{state}")\<close>, absent also
  while the attribute does not exist.
\<close>

definition stored_verifier :: "OAuth2Manager \<Rightarrow> string \<Rightarrow> string \<Rightarrow> string option" where
  "stored_verifier m name state =
     (case code_verifiers m of None \<Rightarrow> None | Some d \<Rightarrow> d (verifier_key name state))"

definition form_headers :: "(string \<times> string) list" where
  "form_headers =
     [(''Content-Type'', ''application/x-www-form-urlencoded''), (''Accept'', ''application/json'')]"

text \<open>\<^verbatim>\<open>requests.post(config.token_url, data=data, headers=headers)\<close> leaves its trace.\<close>

definition post :: "OAuth2Manager \<Rightarrow> string \<Rightarrow> (string \<times> json) list \<Rightarrow> OAuth2Manager" where
  "post m u d = m\<lparr>posted := posted m @ [\<lparr>url = u, data = d, headers = form_headers\<rparr>]\<rparr>"

text \<open>\<^verbatim>\<open>response.raise_for_status()\<close> raises for the status codes 400 to 599.\<close>

definition raise_for_status :: "nat \<Rightarrow> bool" where
  "raise_for_status status = (400 \<le> status \<and> status < 600)"

text \<open>
  What the first three lines of either \<^verbatim>\<open>try\<close> block yield: the reply of
  \<^verbatim>\<open>requests.post\<close>, \<^verbatim>\<open>raise_for_status\<close>, \<^verbatim>\<open>response.json()\<close>.
\<close>

definition token_data_of :: "http_outcome \<Rightarrow> error + json" where
  "token_data_of reply =
     (case reply of
        Transport_failure \<Rightarrow> Inl ConnectionError
      | Response status body \<Rightarrow>
          if raise_for_status status then Inl (HTTPError status)
          else (case body of None \<Rightarrow> Inl JSONDecodeError | Some j \<Rightarrow> Inr j))"

text \<open>``Calculate expiration time'', the same lines in both operations.\<close>

definition expiration_time :: "pylib \<Rightarrow> datetime \<Rightarrow> json \<Rightarrow> error + datetime option" where
  "expiration_time L now token_data =
     (case py_contains ''expires_in'' token_data of
        Inl e \<Rightarrow> Inl e
      | Inr False \<Rightarrow> Inr None
      | Inr True \<Rightarrow>
          (case py_getitem token_data ''expires_in'' of Inl e \<Rightarrow> Inl e | Inr v \<Rightarrow>
           case py_int L v of Inl e \<Rightarrow> Inl e | Inr n \<Rightarrow>
           case plus_seconds L now n of Inl e \<Rightarrow> Inl e | Inr d \<Rightarrow> Inr (Some d)))"

text \<open>The \<^verbatim>\<open>OAuth2Token(...)\<close> that \<^verbatim>\<open>exchange_code_for_token\<close> builds from the reply.\<close>

definition token_of_reply :: "pylib \<Rightarrow> datetime \<Rightarrow> json \<Rightarrow> error + OAuth2Token" where
  "token_of_reply L now token_data =
     (case expiration_time L now token_data of Inl e \<Rightarrow> Inl e | Inr ex \<Rightarrow>
      case py_getitem token_data ''access_token'' of Inl e \<Rightarrow> Inl e | Inr at \<Rightarrow>
      case py_get token_data ''refresh_token'' JNull of Inl e \<Rightarrow> Inl e | Inr rt \<Rightarrow>
      case py_get token_data ''token_type'' (JString ''Bearer'') of Inl e \<Rightarrow> Inl e | Inr tt \<Rightarrow>
      case py_get token_data ''scope'' JNull of Inl e \<Rightarrow> Inl e | Inr sc \<Rightarrow>
        Inr \<lparr>access_token = at, refresh_token = rt, expires_at = ex, token_type = tt,
             scope = sc\<rparr>)"

definition exchange_data :: "OAuth2Config \<Rightarrow> string \<Rightarrow> string \<Rightarrow> (string \<times> json) list" where
  "exchange_data config authorization_code code_verifier =
     [(''grant_type'', JString ''authorization_code''),
      (''client_id'', JString (client_id config)),
      (''client_secret'', JString (client_secret config)),
      (''code'', JString authorization_code),
      (''redirect_uri'', JString (redirect_uri config)),
      (''code_verifier'', JString code_verifier)]"

text \<open>
  \<^verbatim>\<open>exchange_code_for_token\<close>. The \<^verbatim>\<open>except requests.RequestException\<close> clause logs and
  raises again, so every exception of the \<^verbatim>\<open>try\<close> block leaves the call; the state it
  leaves behind is returned with it.
\<close>

definition exchange_code_for_token ::
  "pylib \<Rightarrow> datetime \<Rightarrow> http_outcome \<Rightarrow> OAuth2Manager \<Rightarrow> string \<Rightarrow> string \<Rightarrow> string \<Rightarrow>
   (error + OAuth2Token) \<times> OAuth2Manager" where
  "exchange_code_for_token L now reply m name authorization_code state =
     (case configs m name of
        None \<Rightarrow> (Inl (not_configured name), m)
      | Some config \<Rightarrow>
          (case get_code_verifier m name state of
             (Inl e, m1) \<Rightarrow> (Inl e, m1)
           | (Inr code_verifier, m1) \<Rightarrow>
               (let m2 = post m1 (token_url config)
                           (exchange_data config authorization_code code_verifier)
                in case token_data_of reply of
                     Inl e \<Rightarrow> (Inl e, m2)
                   | Inr token_data \<Rightarrow>
                       (case token_of_reply L now token_data of
                          Inl e \<Rightarrow> (Inl e, m2)
                        | Inr token \<Rightarrow>
                            (Inr token,
                             save_tokens (m2\<lparr>tokens := AList.update name token (tokens m2)\<rparr>))))))"

definition refresh_data :: "OAuth2Config \<Rightarrow> OAuth2Token \<Rightarrow> (string \<times> json) list" where
  "refresh_data config current_token =
     [(''grant_type'', JString ''refresh_token''),
      (''client_id'', JString (client_id config)),
      (''client_secret'', JString (client_secret config)),
      (''refresh_token'', refresh_token current_token)]"

text \<open>
  \<^verbatim>\<open>refresh_token\<close> (the method; the field of the token keeps the name). The token is
  updated in place, field by field, so each assignment is a step of its own.
\<close>

definition refresh_token_op ::
  "pylib \<Rightarrow> datetime \<Rightarrow> http_outcome \<Rightarrow> OAuth2Manager \<Rightarrow> string \<Rightarrow>
   (error + OAuth2Token) \<times> OAuth2Manager" where
  "refresh_token_op L now reply m name =
     (case configs m name of
        None \<Rightarrow> (Inl (not_configured name), m)
      | Some config \<Rightarrow>
          (case map_of (tokens m) name of
             None \<Rightarrow> (Inl (ValueError (''No token available for '' @ name)), m)
           | Some current_token \<Rightarrow>
               if \<not> truthy (refresh_token current_token)
               then (Inl (ValueError (''No refresh token available for '' @ name)), m)
               else
                 (let m1 = post m (token_url config) (refresh_data config current_token)
                  in case token_data_of reply of
                       Inl e \<Rightarrow> (Inl e, m1)
                     | Inr token_data \<Rightarrow>
                   (case expiration_time L now token_data of
                      Inl e \<Rightarrow> (Inl e, m1)
                    | Inr ex \<Rightarrow>
                   (case py_getitem token_data ''access_token'' of
                      Inl e \<Rightarrow> (Inl e, m1)
                    | Inr at \<Rightarrow>
                   (let t1 = current_token\<lparr>access_token := at, expires_at := ex\<rparr>;
                        m2 = m1\<lparr>tokens := AList.update name t1 (tokens m1)\<rparr>
                    in case py_contains ''refresh_token'' token_data of
                         Inl e \<Rightarrow> (Inl e, m2)
                       | Inr False \<Rightarrow> (Inr t1, save_tokens m2)
                       | Inr True \<Rightarrow>
                           (case py_getitem token_data ''refresh_token'' of
                              Inl e \<Rightarrow> (Inl e, m2)
                            | Inr rt \<Rightarrow>
                                (let t2 = t1\<lparr>refresh_token := rt\<rparr>
                                 in (Inr t2,
                                     save_tokens
                                       (m2\<lparr>tokens := AList.update name t2 (tokens m2)\<rparr>))))))))))"

text \<open>
  The test \<^verbatim>\<open>token.expires_at and datetime.now() >= token.expires_at\<close>. A datetime is
  always true as a condition, so the comparison is made whenever there is an expiry; it
  raises \<^verbatim>\<open>TypeError\<close> when the expiry is aware, the clock's reading being naive.
\<close>

definition is_expired :: "datetime \<Rightarrow> OAuth2Token \<Rightarrow> error + bool" where
  "is_expired now token =
     (case expires_at token of None \<Rightarrow> Inr False | Some e \<Rightarrow> dt_ge now e)"

text \<open>
  \<^verbatim>\<open>get_valid_token\<close>. The clock is read once for the expiry check (\<open>now\<close>) and once more
  inside \<^verbatim>\<open>refresh_token\<close> (\<open>now'\<close>). The expiry check stands before the \<^verbatim>\<open>try\<close>, so its
  exception leaves the call; \<^verbatim>\<open>except Exception\<close> turns every failure of the refresh into
  \<^verbatim>\<open>None\<close>.
\<close>

definition get_valid_token ::
  "pylib \<Rightarrow> datetime \<Rightarrow> datetime \<Rightarrow> http_outcome \<Rightarrow> OAuth2Manager \<Rightarrow> string \<Rightarrow>
   (error + OAuth2Token option) \<times> OAuth2Manager" where
  "get_valid_token L now now' reply m name =
     (case map_of (tokens m) name of
        None \<Rightarrow> (Inr None, m)
      | Some token \<Rightarrow>
          (case is_expired now token of
             Inl e \<Rightarrow> (Inl e, m)
           | Inr True \<Rightarrow>
               (case refresh_token_op L now' reply m name of
                  (Inr t, m') \<Rightarrow> (Inr (Some t), m')
                | (Inl e, m') \<Rightarrow> (Inr None, m'))
           | Inr False \<Rightarrow> (Inr (Some token), m)))"

definition revoke_token :: "OAuth2Manager \<Rightarrow> string \<Rightarrow> OAuth2Manager" where
  "revoke_token m name =
     (if map_of (tokens m) name \<noteq> None
      then save_tokens (m\<lparr>tokens := AList.delete name (tokens m)\<rparr>)
      else m)"

text \<open>A new process on the file system the old one leaves behind.\<close>

definition restart :: "pylib \<Rightarrow> OAuth2Manager \<Rightarrow> OAuth2Manager" where
  "restart L m = init L (Some (token_store_path m)) None (disk m) (writable m)"

text \<open>
  The two errors that \<^verbatim>\<open>_get_code_verifier\<close> raises: the state has no verifier on record.
\<close>

definition is_state_mismatch :: "error \<Rightarrow> bool" where
  "is_state_mismatch e =
     (e = ValueError ''No code verifier found'' \<or> e = ValueError ''Invalid state parameter'')"

text \<open>The request that each operation sends to the token endpoint.\<close>

definition exchange_request :: "OAuth2Config \<Rightarrow> string \<Rightarrow> string \<Rightarrow> http_request" where
  "exchange_request config authorization_code code_verifier =
     \<lparr>url = token_url config, data = exchange_data config authorization_code code_verifier,
      headers = form_headers\<rparr>"

definition refresh_request :: "OAuth2Config \<Rightarrow> OAuth2Token \<Rightarrow> http_request" where
  "refresh_request config current_token =
     \<lparr>url = token_url config, data = refresh_data config current_token,
      headers = form_headers\<rparr>"

text \<open>
  What a Python \<^verbatim>\<open>dict\<close> of tokens can hold: each key once, and every expiry a value
  that a \<^verbatim>\<open>datetime\<close> object can have, naive or aware, and that does not depend on the
  Python version when it is read back (\<open>storable_datetime\<close>).
\<close>

definition wf_tokens :: "(string \<times> OAuth2Token) list \<Rightarrow> bool" where
  "wf_tokens ts =
     (distinct (map fst ts) \<and>
      list_all (\<lambda>(name, t). case expires_at t of None \<Rightarrow> True | Some d \<Rightarrow> storable_datetime d) ts)"

subsection \<open>Histories of calls\<close>

text \<open>
  The manager's attributes are touched by its methods only, so a manager's state is that
  of a new manager after a list of calls to its public methods, each with the values its
  environment supplies (the random draws, the clock's readings, the endpoint's reply). A
  call that ends with an exception leaves the state it has reached.
  \<^verbatim>\<open>is_authenticated\<close> is \<^verbatim>\<open>get_valid_token\<close> with the token turned into a truth value.
\<close>

datatype call =
    Add_service_config string OAuth2Config
  | Generate_authorization_url entropy string "string option"
  | Exchange_code_for_token datetime http_outcome string string string
  | Refresh_token datetime http_outcome string
  | Get_valid_token datetime datetime http_outcome string
  | Is_authenticated datetime datetime http_outcome string
  | Revoke_token string

fun do_call :: "pylib \<Rightarrow> OAuth2Manager \<Rightarrow> call \<Rightarrow> OAuth2Manager" where
  "do_call L m (Add_service_config name config) = add_service_config m name config"
| "do_call L m (Generate_authorization_url R name state_arg) =
     snd (generate_authorization_url L R m name state_arg)"
| "do_call L m (Exchange_code_for_token now reply name code state) =
     snd (exchange_code_for_token L now reply m name code state)"
| "do_call L m (Refresh_token now reply name) = snd (refresh_token_op L now reply m name)"
| "do_call L m (Get_valid_token now now' reply name) =
     snd (get_valid_token L now now' reply m name)"
| "do_call L m (Is_authenticated now now' reply name) =
     snd (get_valid_token L now now' reply m name)"
| "do_call L m (Revoke_token name) = revoke_token m name"

definition run :: "pylib \<Rightarrow> OAuth2Manager \<Rightarrow> call list \<Rightarrow> OAuth2Manager" where
  "run L m calls = foldl (do_call L) m calls"

text \<open>
  The keys that a history issues: each call of \<^verbatim>\<open>generate_authorization_url\<close> that
  returns, for a service and with a state, issues the key of that service and that state.
\<close>

definition issued_key :: "pylib \<Rightarrow> OAuth2Manager \<Rightarrow> call \<Rightarrow> string list" where
  "issued_key L m c =
     (case c of
        Generate_authorization_url R name state_arg \<Rightarrow>
          (case fst (generate_authorization_url L R m name state_arg) of
             Inl e \<Rightarrow> []
           | Inr (auth_url, state) \<Rightarrow> [verifier_key name state])
      | _ \<Rightarrow> [])"

fun issued_keys :: "pylib \<Rightarrow> OAuth2Manager \<Rightarrow> call list \<Rightarrow> string list" where
  "issued_keys L m [] = []"
| "issued_keys L m (c # calls) = issued_key L m c @ issued_keys L (do_call L m c) calls"

text \<open>The keys of the verifier dictionary.\<close>

definition verifier_keys :: "OAuth2Manager \<Rightarrow> string set" where
  "verifier_keys m = (case code_verifiers m of None \<Rightarrow> {} | Some d \<Rightarrow> dom d)"

section \<open>A scenario\<close>

text \<open>
  One service, one authorization round trip, one refresh: the concrete values at which the
  theorems below are instantiated. The library stand-ins are arbitrary; the theorems hold
  for every \<open>pylib\<close>. The stand-in for \<open>other_isoformat\<close> is never asked: the scenario
  hands \<open>fromisoformat\<close> no string on which the Python versions differ.
\<close>

definition example_config :: OAuth2Config where
  "example_config =
     \<lparr>client_id = ''cid'', client_secret = ''shh'',
      authorization_url = ''https://auth.example.com/authorize'',
      token_url = ''https://auth.example.com/token'',
      redirect_uri = ''https://app.example.com/cb'',
      scope = ''read write'', service_name = ''svc''\<rparr>"

definition example_lib :: pylib where
  "example_lib =
     \<lparr>sha256 = rev,
      py_int = (\<lambda>v. case v of JInt n \<Rightarrow> Inr n | _ \<Rightarrow> Inl TypeError),
      plus_seconds = (\<lambda>d n.
        let t = int (hour d * 3600 + minute d * 60 + second d) + n
        in if 0 \<le> t \<and> t < 86400
           then Inr (d\<lparr>hour := nat t div 3600, minute := nat t div 60 mod 60,
                        second := nat t mod 60\<rparr>)
           else Inl OverflowError),
      other_isoformat = (\<lambda>s. None)\<rparr>"

definition example_entropy :: entropy where
  "example_entropy = \<lparr>token_urlsafe = ''St4te_-x'', token_bytes = ''0123456789abcdef''\<rparr>"

definition noon :: datetime where
  "noon = \<lparr>year = 2024, month = 2, day = 29, hour = 12, minute = 0, second = 0,
           microsecond = 250, utcoffset = None\<rparr>"

definition two_pm :: datetime where
  "two_pm = noon\<lparr>hour := 14\<rparr>"

definition all_writable :: "string \<Rightarrow> bool" where
  "all_writable path = True"

definition no_files :: "string \<rightharpoonup> file_content" where
  "no_files = Map.empty"

definition fresh_manager :: OAuth2Manager where
  "fresh_manager = init example_lib None None no_files all_writable"

definition example_manager :: OAuth2Manager where
  "example_manager = add_service_config fresh_manager ''svc'' example_config"

definition example_pending :: OAuth2Manager where
  "example_pending =
     snd (generate_authorization_url example_lib example_entropy example_manager ''svc'' None)"

definition reply_tok1 :: http_outcome where
  "reply_tok1 = Response 200 (Some (JObject
     [(''access_token'', JString ''tok1''), (''refresh_token'', JString ''ref1''),
      (''expires_in'', JInt 3600)]))"

definition reply_tok2 :: http_outcome where
  "reply_tok2 = Response 200 (Some (JObject
     [(''access_token'', JString ''tok2''), (''expires_in'', JInt 3600)]))"

definition reply_500 :: http_outcome where
  "reply_500 = Response 500 None"

definition reply_300 :: http_outcome where
  "reply_300 = Response 300 (Some (JObject [(''access_token'', JString ''tok1'')]))"

definition example_authenticated :: OAuth2Manager where
  "example_authenticated =
     snd (exchange_code_for_token example_lib noon reply_tok1 example_pending
            ''svc'' ''abc123'' ''St4te_-x'')"

definition tok1 :: OAuth2Token where
  "tok1 = \<lparr>access_token = JString ''tok1'', refresh_token = JString ''ref1'',
           expires_at = Some (noon\<lparr>hour := 13\<rparr>), token_type = JString ''Bearer'',
           scope = JNull\<rparr>"

text \<open>A token file whose second entry has an expiry that is not an ISO date.\<close>

definition good_entry :: json where
  "good_entry = JObject [(''access_token'', JString ''a'')]"

definition bad_entry :: json where
  "bad_entry = JObject [(''access_token'', JString ''b''), (''expires_at'', JString ''soon'')]"

definition good_token :: OAuth2Token where
  "good_token = \<lparr>access_token = JString ''a'', refresh_token = JNull, expires_at = None,
                 token_type = JString ''Bearer'', scope = JNull\<rparr>"

definition half_good_file :: json where
  "half_good_file = JObject [(''good'', good_entry), (''bad'', bad_entry)]"

definition half_good_disk :: "string \<rightharpoonup> file_content" where
  "half_good_disk = [''.oauth_tokens.json'' \<mapsto> Document half_good_file]"

definition tok2 :: OAuth2Token where
  "tok2 = tok1\<lparr>access_token := JString ''tok2'', expires_at := Some (noon\<lparr>hour := 15\<rparr>)\<rparr>"

definition verifier0 :: string where
  "verifier0 = rstrip CHR ''='' (urlsafe_b64encode (token_bytes example_entropy))"

definition reply_no_token :: http_outcome where
  "reply_no_token = Response 200 (Some (JObject [(''error'', JString ''invalid_grant'')]))"



definition tok_300 :: OAuth2Token where
  "tok_300 = \<lparr>access_token = JString ''tok1'', refresh_token = JNull, expires_at = None,
               token_type = JString ''Bearer'', scope = JNull\<rparr>"


definition loaded_manager :: OAuth2Manager where
  "loaded_manager = init example_lib None None half_good_disk all_writable"

definition example_refreshed :: OAuth2Manager where
  "example_refreshed =
     snd (refresh_token_op example_lib two_pm reply_tok2 example_authenticated ''svc'')"


text \<open>
  Two services whose names differ by a suffix that starts with a colon, and one
  authorization request for the longer name.
\<close>

definition collision_calls :: "call list" where
  "collision_calls =
     [Add_service_config ''a'' example_config,
      Add_service_config ''a:b'' example_config,
      Generate_authorization_url example_entropy ''a:b'' (Some ''c'')]"

definition two_services :: OAuth2Manager where
  "two_services =
     add_service_config (add_service_config fresh_manager ''a'' example_config)
       ''a:b'' example_config"

definition collision_manager :: OAuth2Manager where
  "collision_manager = run example_lib fresh_manager collision_calls"

definition challenge0 :: string where
  "challenge0 = rstrip CHR ''='' (urlsafe_b64encode (sha256 example_lib verifier0))"

definition collision_url :: string where
  "collision_url =
     authorization_url example_config @ ''?'' @
     urlencode (authorization_params example_config ''c'' challenge0)"






definition pending_calls :: "call list" where
  "pending_calls =
     [Add_service_config ''svc'' example_config,
      Generate_authorization_url example_entropy ''svc'' None]"

section \<open>Facts about the encodings\<close>

lemma b64_char_in: "b64_char n \<in> set b64_alphabet"
  unfolding b64_char_def by (rule nth_mem) (simp add: b64_alphabet_def)

lemma b64_shape:
  "\<exists>body pad. urlsafe_b64encode x = body @ pad \<and> set body \<subseteq> set b64_alphabet \<and> set pad \<subseteq> {CHR ''=''}"
proof (induction x rule: urlsafe_b64encode.induct)
  case (1 a b c rest)
  then obtain body pad where h: "urlsafe_b64encode rest = body @ pad" "set body \<subseteq> set b64_alphabet" "set pad \<subseteq> {CHR ''=''}" by blast
  let ?n = "of_char a * 65536 + of_char b * 256 + of_char c :: nat"
  let ?q = "[b64_char (?n div 262144), b64_char (?n div 4096), b64_char (?n div 64), b64_char ?n]"
  have "urlsafe_b64encode (a # b # c # rest) = (?q @ body) @ pad" using h(1) by (simp add: Let_def)
  moreover have "set (?q @ body) \<subseteq> set b64_alphabet" using h(2) by (simp add: b64_char_in)
  ultimately show ?case using h(3) by blast
next
  case (2 a b)
  let ?n = "of_char a * 65536 + of_char b * 256 :: nat"
  let ?q = "[b64_char (?n div 262144), b64_char (?n div 4096), b64_char (?n div 64)]"
  have "urlsafe_b64encode [a, b] = ?q @ ''=''"
    by (simp add: Let_def)
  moreover have "set ?q \<subseteq> set b64_alphabet"
    by (simp add: b64_char_in)
  moreover have "set ''='' \<subseteq> {CHR ''=''}" by simp
  ultimately show ?case by blast
next
  case (3 a)
  let ?n = "of_char a * 65536 :: nat"
  let ?q = "[b64_char (?n div 262144), b64_char (?n div 4096)]"
  have "urlsafe_b64encode [a] = ?q @ ''==''"
    by (simp add: Let_def)
  moreover have "set ?q \<subseteq> set b64_alphabet"
    by (simp add: b64_char_in)
  moreover have "set ''=='' \<subseteq> {CHR ''=''}" by simp
  ultimately show ?case by blast
next
  case 4
  show ?case by simp
qed

lemma eq_not_b64: "CHR ''='' \<notin> set b64_alphabet"
  by (simp add: b64_alphabet_def)

lemma rstrip_pad:
  assumes "set pad \<subseteq> {c}" "c \<notin> set body"
  shows "rstrip c (body @ pad) = body"
proof -
  have "dropWhile (\<lambda>x. x = c) (rev pad @ rev body) = dropWhile (\<lambda>x. x = c) (rev body)"
    using assms(1) by (intro dropWhile_append2) auto
  also have "\<dots> = rev body"
  proof (cases "rev body")
    case Nil
    then show ?thesis by simp
  next
    case (Cons y ys)
    then have "y \<in> set body" by (metis list.set_intros(1) set_rev)
    then have "y \<noteq> c" using assms(2) by blast
    then show ?thesis using Cons by simp
  qed
  finally show ?thesis by (simp add: rstrip_def)
qed

lemma rstrip_b64: "set (rstrip CHR ''='' (urlsafe_b64encode x)) \<subseteq> set b64_alphabet"
proof -
  obtain body pad where h: "urlsafe_b64encode x = body @ pad" "set body \<subseteq> set b64_alphabet" "set pad \<subseteq> {CHR ''=''}"
    using b64_shape by blast
  have "CHR ''='' \<notin> set body" using h(2) eq_not_b64 by blast
  then have "rstrip CHR ''='' (urlsafe_b64encode x) = body" using h(1,3) by (simp add: rstrip_pad)
  then show ?thesis using h(2) by simp
qed

lemma b64_subset_safe: "set b64_alphabet \<subseteq> set always_safe"
  by (simp add: b64_alphabet_def always_safe_def)

lemma quote_plus_b64: "set s \<subseteq> set b64_alphabet \<Longrightarrow> quote_plus s = s"
proof (induction s)
  case Nil
  show ?case by (simp add: quote_plus_def)
next
  case (Cons c s)
  then have "c \<in> set always_safe" using b64_subset_safe by auto
  then have "quote_char c = [c]" by (simp add: quote_char_def)
  then show ?case using Cons by (simp add: quote_plus_def)
qed

lemma join_with_snoc2:
  "xs \<noteq> [] \<Longrightarrow> join_with sep (xs @ [y, z]) = join_with sep xs @ sep @ y @ sep @ z"
  by (induction sep xs rule: join_with.induct) auto

lemma quote_plus_literals:
  "quote_plus ''code_challenge'' = ''code_challenge''"
  "quote_plus ''code_challenge_method'' = ''code_challenge_method''"
  "quote_plus ''S256'' = ''S256''"
  by (simp_all add: quote_plus_def quote_char_def always_safe_def)

lemma urlencode_tail:
  "urlencode (authorization_params config state ch) =
   urlencode (leading_params config state)
   @ ''&code_challenge='' @ quote_plus ch @ ''&code_challenge_method=S256''"
proof -
  have h: "authorization_params config state ch =
        leading_params config state @
        [(''code_challenge'', ch), (''code_challenge_method'', ''S256'')]"
    by (simp add: authorization_params_def leading_params_def)
  have "urlencode (authorization_params config state ch) =
     join_with ''&''
       (map (\<lambda>(k, v). quote_plus k @ ''='' @ quote_plus v) (leading_params config state)
        @ [quote_plus ''code_challenge'' @ ''='' @ quote_plus ch,
           quote_plus ''code_challenge_method'' @ ''='' @ quote_plus ''S256''])"
    unfolding urlencode_def by (subst (1) h) simp
  also have "\<dots> = urlencode (leading_params config state)
     @ ''&'' @ (quote_plus ''code_challenge'' @ ''='' @ quote_plus ch)
     @ ''&'' @ (quote_plus ''code_challenge_method'' @ ''='' @ quote_plus ''S256'')"
    unfolding urlencode_def by (rule join_with_snoc2) (simp add: leading_params_def)
  finally show ?thesis by (simp add: quote_plus_literals)
qed

section \<open>Facts about the persistence helpers\<close>

lemma zfill_length [simp]: "length (zfill w n) = w"
  by (induction w arbitrary: n) auto

lemma parse_digits_snoc:
  "d < 10 \<Longrightarrow>
   parse_digits acc (xs @ [char_of (48 + d)]) = map_option (\<lambda>a. a * 10 + d) (parse_digits acc xs)"
  by (induction xs arbitrary: acc) (auto simp: is_digit_def)

lemma parse_digits_zfill: "parse_digits 0 (zfill w n) = Some (n mod 10 ^ w)"
proof (induction w arbitrary: n)
  case 0
  show ?case by simp
next
  case (Suc w)
  have "parse_digits 0 (zfill (Suc w) n) = Some ((n div 10) mod 10 ^ w * 10 + n mod 10)"
    by (simp add: parse_digits_snoc Suc)
  also have "(n div 10) mod 10 ^ w * 10 + n mod 10 = n mod 10 ^ Suc w"
    by (simp add: mod_mult2_eq mult.commute)
  finally show ?case .
qed

lemma parse_digits_zfill_small: "n < 10 ^ w \<Longrightarrow> parse_digits 0 (zfill w n) = Some n"
  by (simp add: parse_digits_zfill)

lemma isoformat_nonempty: "isoformat d \<noteq> []"
proof -
  have "length (isoformat d) \<ge> 19" by (simp add: isoformat_def)
  then show ?thesis by auto
qed

lemma digit_not_sign:
  fixes d :: nat
  assumes "d < 10"
  shows "not_sign (char_of (48 + d))"
proof -
  have e: "of_char (char_of (48 + d)) = 48 + d" using assms by simp
  have "char_of (48 + d) \<noteq> CHR ''+''"
  proof
    assume "char_of (48 + d) = CHR ''+''"
    then have "of_char (char_of (48 + d)) = (of_char CHR ''+'' :: nat)" by simp
    then show False using e by simp
  qed
  moreover have "char_of (48 + d) \<noteq> CHR ''-''"
  proof
    assume "char_of (48 + d) = CHR ''-''"
    then have "of_char (char_of (48 + d)) = (of_char CHR ''-'' :: nat)" by simp
    then show False using e by simp
  qed
  ultimately show ?thesis by (simp add: not_sign_def)
qed

lemma zfill_not_sign: "c \<in> set (zfill w n) \<Longrightarrow> not_sign c"
  by (induction w arbitrary: n) (auto simp: digit_not_sign)

lemma clock_not_sign:
  "c \<in> set (zfill 2 h @ '':'' @ zfill 2 mi @ '':'' @ zfill 2 s @
            (if us = 0 then [] else ''.'' @ zfill 6 us)) \<Longrightarrow> not_sign c"
  using zfill_not_sign by (auto simp: not_sign_def split: if_splits)

lemma parse_clock_short:
  assumes "h < 100" "mi < 100"
  shows "parse_clock (zfill 2 h @ '':'' @ zfill 2 mi) = Some (h, mi, 0, 0)"
  using assms
  by (simp add: parse_clock_def digits_at_def char_at_def nth_append parse_digits_zfill_small)

lemma parse_clock_plain:
  assumes "h < 100" "mi < 100" "s < 100"
  shows "parse_clock (zfill 2 h @ '':'' @ zfill 2 mi @ '':'' @ zfill 2 s) = Some (h, mi, s, 0)"
  using assms
  by (simp add: parse_clock_def digits_at_def char_at_def nth_append parse_digits_zfill_small)

lemma parse_clock_micro:
  assumes "h < 100" "mi < 100" "s < 100" "us < 1000000"
  shows "parse_clock (zfill 2 h @ '':'' @ zfill 2 mi @ '':'' @ zfill 2 s @ ''.'' @ zfill 6 us)
         = Some (h, mi, s, us)"
  using assms
  by (simp add: parse_clock_def digits_at_def char_at_def nth_append parse_digits_zfill_small)

lemma hms_split:
  fixes secs :: nat
  shows "secs div 3600 * 3600 + secs div 60 mod 60 * 60 + secs mod 60 = secs"
proof -
  define q where "q = secs div 60"
  have a: "secs div 3600 = q div 60" by (simp add: div_mult2_eq q_def)
  have "q div 60 * 3600 + q mod 60 * 60 = (q div 60 * 60 + q mod 60) * 60"
    by (simp only: add_mult_distrib mult.assoc)
  also have "\<dots> = q * 60" by simp
  finally have "q div 60 * 3600 + q mod 60 * 60 + secs mod 60 = q * 60 + secs mod 60" by simp
  also have "\<dots> = secs" by (simp add: q_def)
  finally show ?thesis by (simp add: a q_def)
qed

lemma offset_parts:
  fixes off :: int
  assumes "\<bar>off\<bar> < 86400000000"
  defines "secs \<equiv> nat (\<bar>off\<bar> div 1000000)" and "us \<equiv> nat (\<bar>off\<bar> mod 1000000)"
  shows "secs div 3600 < 24" "secs div 60 mod 60 < 60" "secs mod 60 < 60" "us < 1000000"
    "int (secs div 3600 * 3600 + secs div 60 mod 60 * 60 + secs mod 60) * 1000000 + int us = \<bar>off\<bar>"
proof -
  have "\<bar>off\<bar> div 1000000 < 86400" using assms(1) by linarith
  then have s: "secs < 86400" unfolding secs_def by linarith
  then show "secs div 3600 < 24" by simp
  show "secs div 60 mod 60 < 60" "secs mod 60 < 60" by simp_all
  have "\<bar>off\<bar> mod 1000000 < 1000000" by simp
  then show "us < 1000000" unfolding us_def by linarith
  have "int secs = \<bar>off\<bar> div 1000000" unfolding secs_def by simp
  moreover have "int us = \<bar>off\<bar> mod 1000000" unfolding us_def by simp
  ultimately have "int secs * 1000000 + int us = \<bar>off\<bar>" by simp
  then show "int (secs div 3600 * 3600 + secs div 60 mod 60 * 60 + secs mod 60) * 1000000 + int us = \<bar>off\<bar>"
    by (simp only: hms_split)
qed

lemma parse_offset_format:
  assumes "\<bar>off\<bar> < 86400000000" "off = 0 \<or> 1000000 \<le> \<bar>off\<bar>"
  shows "parse_offset (format_offset off) = Some (Some off)"
proof -
  define secs where "secs = nat (\<bar>off\<bar> div 1000000)"
  define us where "us = nat (\<bar>off\<bar> mod 1000000)"
  define hh where "hh = secs div 3600"
  define mm where "mm = secs div 60 mod 60"
  define ss where "ss = secs mod 60"
  define sgn where "sgn = (if off < 0 then CHR ''-'' else CHR ''+'')"
  note p = offset_parts[OF assms(1), folded secs_def us_def, folded hh_def mm_def ss_def]
  have b: "hh < 100" "mm < 100" "ss < 100" "us < 1000000" "hh < 24" "mm < 60" "ss < 60"
    using p(1-4) by simp_all
  have f: "format_offset off =
      sgn # (zfill 2 hh @ '':'' @ zfill 2 mm @
         (if ss = 0 \<and> us = 0 then []
          else '':'' @ zfill 2 ss @ (if us = 0 then [] else ''.'' @ zfill 6 us)))"
    by (simp add: format_offset_def Let_def secs_def us_def hh_def mm_def ss_def sgn_def)
  have v: "(if sgn = CHR ''-'' then - 1 else 1) * \<bar>off\<bar> = off"
    by (simp add: sgn_def)
  have c: "parse_clock (zfill 2 hh @ '':'' @ zfill 2 mm @
         (if ss = 0 \<and> us = 0 then []
          else '':'' @ zfill 2 ss @ (if us = 0 then [] else ''.'' @ zfill 6 us)))
        = Some (hh, mm, ss, us)"
    using b parse_clock_short[of hh mm] parse_clock_plain[of hh mm ss]
      parse_clock_micro[of hh mm ss us]
    by (cases "us = 0"; cases "ss = 0") simp_all
  have l: "length (zfill 2 hh @ '':'' @ zfill 2 mm @
         (if ss = 0 \<and> us = 0 then []
          else '':'' @ zfill 2 ss @ (if us = 0 then [] else ''.'' @ zfill 6 us))) \<noteq> 12"
    by simp
  have z: "0 < hh * 3600 + mm * 60 + ss \<or> us = 0"
  proof (cases "hh * 3600 + mm * 60 + ss = 0")
    case True
    then have e: "int us = \<bar>off\<bar>" using p(5) by simp
    then have "\<bar>off\<bar> < 1000000" using b(4) by linarith
    then have "off = 0" using assms(2) by linarith
    then show ?thesis using e by simp
  next
    case False
    then show ?thesis by simp
  qed
  show ?thesis
    unfolding f parse_offset_def using c l b(5-7) p(5) v z
    by (simp del: append_assoc)
qed

lemma format_offset_sign:
  "takeWhile not_sign (format_offset off) = []"
  "dropWhile not_sign (format_offset off) = format_offset off"
  by (simp_all add: format_offset_def Let_def not_sign_def)

lemma split_clock:
  assumes "\<And>c. c \<in> set t \<Longrightarrow> not_sign c"
  shows "takeWhile not_sign (t @ (case off of None \<Rightarrow> [] | Some x \<Rightarrow> format_offset x)) = t"
    "dropWhile not_sign (t @ (case off of None \<Rightarrow> [] | Some x \<Rightarrow> format_offset x))
       = (case off of None \<Rightarrow> [] | Some x \<Rightarrow> format_offset x)"
  using assms
  by (cases off; simp add: takeWhile_append2 dropWhile_append2 format_offset_sign)+

lemma parse_isoformat_isoformat:
  assumes "storable_datetime d"
  shows "parse_isoformat (isoformat d) = Some d"
proof -
  have valid: "valid_datetime d" using assms by (simp add: storable_datetime_def)
  let ?t = "zfill 2 (hour d) @ '':'' @ zfill 2 (minute d) @ '':'' @ zfill 2 (second d) @
            (if microsecond d = 0 then [] else ''.'' @ zfill 6 (microsecond d))"
  let ?z = "case utcoffset d of None \<Rightarrow> [] | Some x \<Rightarrow> format_offset x"
  let ?s = "zfill 4 (year d) @ ''-'' @ zfill 2 (month d) @ ''-'' @ zfill 2 (day d) @ ''T'' @ (?t @ ?z)"
  have b: "year d < 10000" "month d < 100" "day d < 100" "hour d < 100" "minute d < 100"
    "second d < 100" "microsecond d < 1000000"
    using valid by (auto simp: valid_datetime_def days_in_month_def split: if_splits)
  have t: "parse_clock ?t = Some (hour d, minute d, second d, microsecond d)"
    using b parse_clock_plain[of "hour d" "minute d" "second d"]
      parse_clock_micro[of "hour d" "minute d" "second d" "microsecond d"]
    by (cases "microsecond d = 0") simp_all
  have z: "parse_offset ?z = Some (utcoffset d)"
  proof (cases "utcoffset d")
    case None
    then show ?thesis by (simp add: parse_offset_def)
  next
    case (Some x)
    then have "\<bar>x\<bar> < 86400000000" "x = 0 \<or> 1000000 \<le> \<bar>x\<bar>"
      using assms by (simp_all add: storable_datetime_def valid_datetime_def)
    then show ?thesis using Some by (simp add: parse_offset_format)
  qed
  have ns: "\<And>c. c \<in> set ?t \<Longrightarrow> not_sign c" by (rule clock_not_sign)
  have tw: "takeWhile not_sign (?t @ ?z) = ?t" by (rule split_clock(1)[OF ns])
  have dw: "dropWhile not_sign (?t @ ?z) = ?z" by (rule split_clock(2)[OF ns])
  have s: "isoformat d = ?s" by (simp add: isoformat_def)
  have d11: "drop 11 ?s = ?t @ ?z" by simp
  have len: "length ?s \<noteq> 10" by simp
  have "parse_isoformat ?s
        = (let r = \<lparr>year = year d, month = month d, day = day d, hour = hour d,
                     minute = minute d, second = second d, microsecond = microsecond d,
                     utcoffset = utcoffset d\<rparr>
           in if valid_datetime r then Some r else None)"
    unfolding parse_isoformat_def d11 tw dw t z
    using b len by (simp add: digits_at_def char_at_def nth_append parse_digits_zfill_small del: append_assoc)
  moreover have "\<lparr>year = year d, month = month d, day = day d, hour = hour d,
                     minute = minute d, second = second d, microsecond = microsecond d,
                     utcoffset = utcoffset d\<rparr> = d"
    by (cases d) simp
  ultimately show ?thesis using valid s by (simp add: Let_def)
qed

lemma fromisoformat_isoformat:
  assumes "storable_datetime d"
  shows "fromisoformat L (isoformat d) = Some d"
  using assms by (simp add: fromisoformat_def parse_isoformat_isoformat)

lemma token_roundtrip:
  assumes "case expires_at t of None \<Rightarrow> True | Some d \<Rightarrow> storable_datetime d"
  shows "token_from_json L (token_to_json t) = Inr t"
proof (cases "expires_at t")
  case None
  then show ?thesis
    by (simp add: token_from_json_def token_to_json_def parse_expires_at_def)
next
  case (Some d)
  then have "fromisoformat L (isoformat d) = Some d" using assms by (simp add: fromisoformat_isoformat)
  then show ?thesis using Some
    by (simp add: token_from_json_def token_to_json_def parse_expires_at_def isoformat_nonempty)
qed

lemma update_fresh: "k \<notin> fst ` set al \<Longrightarrow> AList.update k v al = al @ [(k, v)]"
  by (induction al) auto

lemma serialize_acc:
  "distinct (map fst acc @ map fst ts) \<Longrightarrow>
   foldl (\<lambda>acc (svc, tok). AList.update svc (token_to_json tok) acc) acc ts =
   acc @ map (\<lambda>(svc, tok). (svc, token_to_json tok)) ts"
proof (induction ts arbitrary: acc)
  case Nil
  show ?case by simp
next
  case (Cons p ts)
  obtain k t where p: "p = (k, t)" by (cases p)
  have fresh: "k \<notin> fst ` set acc" using Cons.prems p by auto
  have "distinct (map fst (acc @ [(k, token_to_json t)]) @ map fst ts)"
    using Cons.prems p by auto
  then show ?case using Cons.IH[of "acc @ [(k, token_to_json t)]"] p fresh
    by (simp add: update_fresh)
qed

lemma serialize_wf:
  "distinct (map fst ts) \<Longrightarrow>
   serialize_tokens ts = map (\<lambda>(svc, tok). (svc, token_to_json tok)) ts"
  using serialize_acc[of "[]" ts] by (simp add: serialize_tokens_def)

lemma load_entries_acc:
  assumes "distinct (map fst acc @ map fst ts)"
    "list_all (\<lambda>(name, t). case expires_at t of None \<Rightarrow> True | Some d \<Rightarrow> storable_datetime d) ts"
  shows "load_entries L (map (\<lambda>(svc, tok). (svc, token_to_json tok)) ts) acc = (None, acc @ ts)"
  using assms
proof (induction ts arbitrary: acc)
  case Nil
  show ?case by simp
next
  case (Cons p ts)
  obtain k t where p: "p = (k, t)" by (cases p)
  have fresh: "k \<notin> fst ` set acc" using Cons.prems p by auto
  have rt: "token_from_json L (token_to_json t) = Inr t"
    using Cons.prems(2) p by (simp add: token_roundtrip)
  have "distinct (map fst (acc @ [(k, t)]) @ map fst ts)" using Cons.prems p by auto
  moreover have "list_all (\<lambda>(name, t). case expires_at t of None \<Rightarrow> True | Some d \<Rightarrow> storable_datetime d) ts"
    using Cons.prems(2) by simp
  ultimately have "load_entries L (map (\<lambda>(svc, tok). (svc, token_to_json tok)) ts) (acc @ [(k, t)])
      = (None, (acc @ [(k, t)]) @ ts)"
    by (rule Cons.IH)
  then show ?case using p rt fresh by (simp add: update_fresh)
qed

lemma load_after_save:
  assumes "wf_tokens ts"
  shows "load_entries L (serialize_tokens ts) [] = (None, ts)"
  using assms load_entries_acc[of "[]" ts L] by (simp add: wf_tokens_def serialize_wf)



section \<open>Facts about the operations\<close>

lemma save_tokens_fields [simp]:
  "tokens (save_tokens m) = tokens m"
  "configs (save_tokens m) = configs m"
  "token_store_path (save_tokens m) = token_store_path m"
  "code_verifiers (save_tokens m) = code_verifiers m"
  "writable (save_tokens m) = writable m"
  "posted (save_tokens m) = posted m"
  by (simp_all add: save_tokens_def write_file_def)


lemma stored_verifier_save [simp]:
  "stored_verifier (save_tokens m) name state = stored_verifier m name state"
  by (simp add: stored_verifier_def)

lemma stored_verifier_fields [simp]:
  "stored_verifier (m\<lparr>tokens := ts\<rparr>) name state = stored_verifier m name state"
  "stored_verifier (m\<lparr>posted := ps\<rparr>) name state = stored_verifier m name state"
  by (simp_all add: stored_verifier_def)

lemma get_code_verifier_absent:
  assumes "stored_verifier m name state = None"
  shows "\<exists>e. get_code_verifier m name state = (Inl e, m) \<and> is_state_mismatch e"
  using assms
  by (auto simp: get_code_verifier_def stored_verifier_def is_state_mismatch_def
           split: option.splits)

lemma get_code_verifier_present:
  assumes "stored_verifier m name state = Some v"
  shows "\<exists>d. code_verifiers m = Some d \<and>
             get_code_verifier m name state =
               (Inr v, m\<lparr>code_verifiers := Some (d(verifier_key name state := None))\<rparr>)"
  using assms
  by (auto simp: get_code_verifier_def stored_verifier_def split: option.splits)

lemma exchange_unconfigured:
  "configs m name = None \<Longrightarrow>
   exchange_code_for_token L now reply m name code state = (Inl (not_configured name), m)"
  by (simp add: exchange_code_for_token_def)

lemma exchange_no_verifier:
  assumes "configs m name = Some config" "stored_verifier m name state = None"
  shows "\<exists>e. exchange_code_for_token L now reply m name code state = (Inl e, m) \<and>
             is_state_mismatch e"
proof -
  obtain e where "get_code_verifier m name state = (Inl e, m)" "is_state_mismatch e"
    using get_code_verifier_absent[OF assms(2)] by blast
  then show ?thesis using assms(1) by (simp add: exchange_code_for_token_def)
qed

text \<open>What a call that finds its verifier does, whatever the endpoint replies.\<close>

lemma exchange_with_verifier:
  assumes "configs m name = Some config" "stored_verifier m name state = Some v"
  shows "\<exists>r m'. exchange_code_for_token L now reply m name code state = (r, m') \<and>
           stored_verifier m' name state = None \<and>
           configs m' = configs m \<and>
           posted m' = posted m @
             [\<lparr>url = token_url config, data = exchange_data config code v,
               headers = form_headers\<rparr>] \<and>
           (case r of
              Inl e \<Rightarrow> tokens m' = tokens m \<and> disk m' = disk m \<and>
                (token_data_of reply = Inl e \<or>
                 (\<exists>j. token_data_of reply = Inr j \<and> token_of_reply L now j = Inl e))
            | Inr t \<Rightarrow> tokens m' = AList.update name t (tokens m) \<and>
                (\<exists>j. token_data_of reply = Inr j \<and> token_of_reply L now j = Inr t))"
proof -
  obtain d where d: "code_verifiers m = Some d"
    "get_code_verifier m name state =
       (Inr v, m\<lparr>code_verifiers := Some (d(verifier_key name state := None))\<rparr>)"
    using get_code_verifier_present[OF assms(2)] by blast
  show ?thesis
    using assms(1) d(2)
    by (auto simp: exchange_code_for_token_def Let_def post_def stored_verifier_def
             split: sum.splits)
qed

lemma exchange_configs [simp]:
  "configs (snd (exchange_code_for_token L now reply m name code state)) = configs m"
  by (auto simp: exchange_code_for_token_def get_code_verifier_def Let_def post_def
           split: option.splits sum.splits)

lemma exchange_consumes:
  assumes "configs m name = Some config"
  shows "stored_verifier (snd (exchange_code_for_token L now reply m name code state)) name state
         = None"
proof (cases "stored_verifier m name state")
  case None
  then show ?thesis using exchange_no_verifier[OF assms None, of L now reply code] by auto
next
  case (Some v)
  then show ?thesis using exchange_with_verifier[OF assms Some, of L now reply code] by auto
qed

lemma token_of_reply_needs_access_token:
  "py_getitem j ''access_token'' = Inl e \<Longrightarrow> \<exists>e'. token_of_reply L now j = Inl e'"
  by (cases "expiration_time L now j") (simp_all add: token_of_reply_def)

lemma token_data_of_cases:
  "token_data_of (Response status body) =
     (if raise_for_status status then Inl (HTTPError status)
      else case body of None \<Rightarrow> Inl JSONDecodeError | Some j \<Rightarrow> Inr j)"
  "token_data_of Transport_failure = Inl ConnectionError"
  by (simp_all add: token_data_of_def)

lemma py_getitem_Inr:
  "py_getitem j k = Inr v \<Longrightarrow> \<exists>kvs. j = JObject kvs \<and> map_of kvs k = Some v"
  by (cases j) (auto split: option.splits)

lemma refresh_failure:
  assumes "refresh_token_op L now reply m name = (Inl e, m')"
  shows "tokens m' = tokens m \<and> disk m' = disk m \<and>
         (case (configs m name, map_of (tokens m) name) of
            (Some config, Some cur) \<Rightarrow>
              if truthy (refresh_token cur)
              then m' = m\<lparr>posted := posted m @ [refresh_request config cur]\<rparr>
              else m' = m
          | _ \<Rightarrow> m' = m)"
proof (cases "configs m name")
  case None
  then show ?thesis using assms by (simp add: refresh_token_op_def)
next
  case (Some config)
  note cfg = this
  show ?thesis
  proof (cases "map_of (tokens m) name")
    case None
    then show ?thesis using assms cfg by (simp add: refresh_token_op_def)
  next
    case (Some cur)
    note cur = this
    show ?thesis
    proof (cases "truthy (refresh_token cur)")
      case False
      then show ?thesis using assms cfg cur by (simp add: refresh_token_op_def)
    next
      case True
      let ?m1 = "m\<lparr>posted := posted m @ [refresh_request config cur]\<rparr>"
      have m1: "post m (token_url config) (refresh_data config cur) = ?m1"
        by (simp add: post_def refresh_request_def)
      have "m' = ?m1"
      proof (cases "token_data_of reply")
        case (Inl a)
        then show ?thesis using assms cfg cur True m1 by (simp add: refresh_token_op_def)
      next
        case (Inr token_data)
        note td = this
        show ?thesis
        proof (cases "expiration_time L now token_data")
          case (Inl a)
          then show ?thesis using assms cfg cur True m1 td by (simp add: refresh_token_op_def)
        next
          case (Inr ex)
          note ex = this
          show ?thesis
          proof (cases "py_getitem token_data ''access_token''")
            case (Inl a)
            then show ?thesis using assms cfg cur True m1 td ex by (simp add: refresh_token_op_def)
          next
            case (Inr at)
            then obtain kvs where kvs: "token_data = JObject kvs" "map_of kvs ''access_token'' = Some at"
              using py_getitem_Inr by blast
            have False
              using assms cfg cur True m1 td ex kvs
              by (cases "map_of kvs ''refresh_token''")
                 (simp_all add: refresh_token_op_def Let_def)
            then show ?thesis ..
          qed
        qed
      qed
      then show ?thesis using cfg cur True by auto
    qed
  qed
qed

lemma refresh_success:
  assumes "refresh_token_op L now reply m name = (Inr t, m')"
  shows "\<exists>config cur kvs at ex.
           configs m name = Some config \<and> map_of (tokens m) name = Some cur \<and>
           truthy (refresh_token cur) \<and>
           token_data_of reply = Inr (JObject kvs) \<and>
           expiration_time L now (JObject kvs) = Inr ex \<and>
           map_of kvs ''access_token'' = Some at \<and>
           t = cur\<lparr>access_token := at, expires_at := ex,
                   refresh_token := (case map_of kvs ''refresh_token'' of
                                       None \<Rightarrow> refresh_token cur | Some rt \<Rightarrow> rt)\<rparr> \<and>
           m' = save_tokens (m\<lparr>posted := posted m @ [refresh_request config cur],
                                tokens := AList.update name t (tokens m)\<rparr>)"
proof -
  obtain config where cfg: "configs m name = Some config"
    using assms by (cases "configs m name") (auto simp: refresh_token_op_def)
  obtain cur where cur: "map_of (tokens m) name = Some cur"
    using assms cfg by (cases "map_of (tokens m) name") (auto simp: refresh_token_op_def)
  have tr: "truthy (refresh_token cur)"
    using assms cfg cur by (cases "truthy (refresh_token cur)") (auto simp: refresh_token_op_def)
  obtain token_data where td: "token_data_of reply = Inr token_data"
    using assms cfg cur tr by (cases "token_data_of reply") (auto simp: refresh_token_op_def)
  obtain ex where ex: "expiration_time L now token_data = Inr ex"
    using assms cfg cur tr td
    by (cases "expiration_time L now token_data") (auto simp: refresh_token_op_def)
  obtain at where at: "py_getitem token_data ''access_token'' = Inr at"
    using assms cfg cur tr td ex
    by (cases "py_getitem token_data ''access_token''") (auto simp: refresh_token_op_def)
  obtain kvs where kvs: "token_data = JObject kvs" "map_of kvs ''access_token'' = Some at"
    using at py_getitem_Inr by blast
  have "t = cur\<lparr>access_token := at, expires_at := ex,
                   refresh_token := (case map_of kvs ''refresh_token'' of
                                       None \<Rightarrow> refresh_token cur | Some rt \<Rightarrow> rt)\<rparr> \<and>
           m' = save_tokens (m\<lparr>posted := posted m @ [refresh_request config cur],
                                tokens := AList.update name t (tokens m)\<rparr>)"
    using assms cfg cur tr td ex kvs
    by (cases "map_of kvs ''refresh_token''")
       (auto simp: refresh_token_op_def Let_def post_def refresh_request_def)
  then show ?thesis using cfg cur tr td ex kvs by blast
qed

lemma refresh_success_token:
  assumes "refresh_token_op L now reply m name = (Inr t, m')"
  shows "tokens m' = AList.update name t (tokens m) \<and> map_of (tokens m') name = Some t \<and>
         (\<exists>config cur. configs m name = Some config \<and> map_of (tokens m) name = Some cur \<and>
            posted m' = posted m @ [refresh_request config cur])"
proof -
  obtain config cur where h: "configs m name = Some config" "map_of (tokens m) name = Some cur"
    "m' = save_tokens (m\<lparr>posted := posted m @ [refresh_request config cur],
                                tokens := AList.update name t (tokens m)\<rparr>)"
    using refresh_success[OF assms] by blast
  have "tokens m' = AList.update name t (tokens m)" using h(3) by simp
  moreover have "map_of (AList.update name t (tokens m)) name = Some t"
    by (simp add: AList.update_conv')
  moreover have "posted m' = posted m @ [refresh_request config cur]" using h(3) by simp
  ultimately show ?thesis using h(1,2) by auto
qed


text \<open>
  Only \<^verbatim>\<open>generate_authorization_url\<close> adds a key to the verifier dictionary, so the keys
  on record are among those that the calls of a history have issued.
\<close>

lemma stored_verifier_keys:
  "stored_verifier m name state = None \<longleftrightarrow> verifier_key name state \<notin> verifier_keys m"
  by (auto simp: stored_verifier_def verifier_keys_def split: option.splits)

lemma generate_keys:
  "verifier_keys (snd (generate_authorization_url L R m name state_arg))
   \<subseteq> verifier_keys m \<union> set (issued_key L m (Generate_authorization_url R name state_arg))"
  by (auto simp: generate_authorization_url_def issued_key_def Let_def verifier_keys_def
        store_code_verifier_def split: option.splits if_splits)

lemma exchange_keys:
  "verifier_keys (snd (exchange_code_for_token L now reply m name code state)) \<subseteq> verifier_keys m"
  by (auto simp: exchange_code_for_token_def get_code_verifier_def Let_def verifier_keys_def
        post_def split: option.splits sum.splits if_splits)

lemma refresh_verifiers:
  "code_verifiers (snd (refresh_token_op L now reply m name)) = code_verifiers m"
proof -
  obtain r m' where run: "refresh_token_op L now reply m name = (r, m')"
    by (cases "refresh_token_op L now reply m name")
  show ?thesis
  proof (cases r)
    case (Inl e)
    then have "refresh_token_op L now reply m name = (Inl e, m')" using run by simp
    from refresh_failure[OF this] have "code_verifiers m' = code_verifiers m"
      by (auto split: option.splits if_splits)
    then show ?thesis using run by simp
  next
    case (Inr t)
    then have "refresh_token_op L now reply m name = (Inr t, m')" using run by simp
    from refresh_success[OF this] have "code_verifiers m' = code_verifiers m" by auto
    then show ?thesis using run by simp
  qed
qed

lemma get_valid_verifiers:
  "code_verifiers (snd (get_valid_token L now now' reply m name)) = code_verifiers m"
  using refresh_verifiers[of L now' reply m name]
  by (auto simp: get_valid_token_def split: option.splits sum.splits bool.splits prod.splits)

lemma do_call_keys:
  "verifier_keys (do_call L m c) \<subseteq> verifier_keys m \<union> set (issued_key L m c)"
proof (cases c)
  case (Generate_authorization_url R name state_arg)
  then show ?thesis using generate_keys[of L R m name state_arg] by simp
next
  case (Exchange_code_for_token now reply name code state)
  then show ?thesis using exchange_keys[of L now reply m name code state] by auto
next
  case (Refresh_token now reply name)
  then show ?thesis by (simp add: verifier_keys_def refresh_verifiers issued_key_def)
next
  case (Get_valid_token now now' reply name)
  then show ?thesis by (simp add: verifier_keys_def get_valid_verifiers issued_key_def)
next
  case (Is_authenticated now now' reply name)
  then show ?thesis by (simp add: verifier_keys_def get_valid_verifiers issued_key_def)
qed (simp_all add: verifier_keys_def add_service_config_def revoke_token_def issued_key_def)

lemma run_keys:
  "verifier_keys (run L m calls) \<subseteq> verifier_keys m \<union> set (issued_keys L m calls)"
proof (induction calls arbitrary: m)
  case Nil
  show ?case by (simp add: run_def)
next
  case (Cons c calls)
  have "verifier_keys (run L (do_call L m c) calls)
        \<subseteq> verifier_keys (do_call L m c) \<union> set (issued_keys L (do_call L m c) calls)"
    using Cons.IH[of "do_call L m c"] .
  then show ?case using do_call_keys[of L m c] by (auto simp: run_def)
qed

lemma init_keys: "verifier_keys (init L path_arg env_store dsk wr) = {}"
  by (simp add: verifier_keys_def init_def load_tokens_def Let_def split: sum.splits json.splits)

lemma never_issued:
  assumes "verifier_key name state
             \<notin> set (issued_keys L (init L path_arg env_store dsk wr) calls)"
  shows "stored_verifier (run L (init L path_arg env_store dsk wr) calls) name state = None"
  using assms run_keys[of L "init L path_arg env_store dsk wr" calls]
  by (auto simp: stored_verifier_keys init_keys)

text \<open>An exception of the expiry check leaves \<open>get_valid_token\<close>, with the state as it was.\<close>

lemma get_valid_token_raises:
  assumes "map_of (tokens m) name = Some token" "expires_at token = Some e"
    "dt_ge now e = Inl err"
  shows "get_valid_token L now now' reply m name = (Inl err, m)"
  using assms by (simp add: get_valid_token_def is_expired_def)

lemma dt_ge_naive_aware:
  "utcoffset now = None \<Longrightarrow> utcoffset e = Some off \<Longrightarrow> dt_ge now e = Inl TypeError"
  by (simp add: dt_ge_def)

section \<open>Facts about the scenario\<close>

lemma fresh_manager_eq:
  "fresh_manager =
     \<lparr>tokens = [], configs = Map.empty, token_store_path = ''.oauth_tokens.json'',
      code_verifiers = None, disk = no_files, writable = all_writable, posted = []\<rparr>"
  by (simp add: fresh_manager_def init_def store_path_def load_tokens_def no_files_def)

lemma example_manager_eq:
  "example_manager =
     \<lparr>tokens = [], configs = [''svc'' \<mapsto> example_config],
      token_store_path = ''.oauth_tokens.json'',
      code_verifiers = None, disk = no_files, writable = all_writable, posted = []\<rparr>"
  by (simp add: example_manager_def fresh_manager_eq add_service_config_def)

lemma example_pending_eq:
  "example_pending =
     \<lparr>tokens = [], configs = [''svc'' \<mapsto> example_config],
      token_store_path = ''.oauth_tokens.json'',
      code_verifiers = Some [verifier_key ''svc'' ''St4te_-x'' \<mapsto> verifier0],
      disk = no_files, writable = all_writable, posted = []\<rparr>"
  by (simp add: example_pending_def example_manager_eq generate_authorization_url_def Let_def
      store_code_verifier_def verifier0_def example_entropy_def)

lemma example_pending_facts:
  "configs example_pending ''svc'' = Some example_config"
  "stored_verifier example_pending ''svc'' ''St4te_-x'' = Some verifier0"
  "tokens example_pending = []"
  by (simp_all add: example_pending_eq stored_verifier_def)

lemma example_manager_facts:
  "configs example_manager ''svc'' = Some example_config"
  "stored_verifier example_manager ''svc'' ''St4te_-x'' = None"
  "map_of (tokens example_manager) ''svc'' = None"
  by (simp_all add: example_manager_eq stored_verifier_def)

lemma token_of_reply_tok1:
  "token_of_reply example_lib noon
     (JObject [(''access_token'', JString ''tok1''), (''refresh_token'', JString ''ref1''),
               (''expires_in'', JInt 3600)]) = Inr tok1"
  by (simp add: token_of_reply_def expiration_time_def example_lib_def noon_def tok1_def)

lemma example_authenticated_eq:
  "example_authenticated =
     \<lparr>tokens = [(''svc'', tok1)], configs = [''svc'' \<mapsto> example_config],
      token_store_path = ''.oauth_tokens.json'',
      code_verifiers = Some Map.empty,
      disk = [''.oauth_tokens.json'' \<mapsto> Document (JObject [(''svc'', token_to_json tok1)])],
      writable = all_writable,
      posted = [exchange_request example_config ''abc123'' verifier0]\<rparr>"
  by (simp add: example_authenticated_def example_pending_eq exchange_code_for_token_def
      get_code_verifier_def Let_def post_def reply_tok1_def token_data_of_def
      raise_for_status_def token_of_reply_tok1 save_tokens_def write_file_def all_writable_def
      serialize_tokens_def exchange_request_def no_files_def)

lemma exchange_tok1:
  "fst (exchange_code_for_token example_lib noon reply_tok1 example_pending
          ''svc'' ''abc123'' ''St4te_-x'') = Inr tok1"
  by (simp add: example_pending_eq exchange_code_for_token_def get_code_verifier_def Let_def
      post_def reply_tok1_def token_data_of_def raise_for_status_def token_of_reply_tok1)

lemma example_authenticated_facts:
  "configs example_authenticated ''svc'' = Some example_config"
  "map_of (tokens example_authenticated) ''svc'' = Some tok1"
  "tokens example_authenticated = [(''svc'', tok1)]"
  "token_store_path example_authenticated = ''.oauth_tokens.json''"
  "writable example_authenticated = all_writable"
  by (simp_all add: example_authenticated_eq)

lemma tok1_facts:
  "expires_at tok1 = Some (noon\<lparr>hour := 13\<rparr>)"
  "is_expired noon tok1 = Inr False"
  "dt_ge two_pm (noon\<lparr>hour := 13\<rparr>) = Inr True"
  "truthy (refresh_token tok1)"
  by (simp_all add: tok1_def is_expired_def dt_ge_def dt_tuple_def noon_def two_pm_def)


lemma refresh_tok2:
  "fst (refresh_token_op example_lib two_pm reply_tok2 example_authenticated ''svc'') = Inr tok2"
  by (simp add: refresh_token_op_def example_authenticated_facts tok1_facts post_def Let_def
      reply_tok2_def token_data_of_def raise_for_status_def expiration_time_def example_lib_def
      two_pm_def noon_def tok2_def tok1_def)


lemma refresh_tok2_eq:
  "refresh_token_op example_lib two_pm reply_tok2 example_authenticated ''svc'' =
     (Inr tok2, example_refreshed)"
  using refresh_tok2 by (simp add: example_refreshed_def prod_eq_iff)


lemma bad_entry_fails:
  "token_from_json L bad_entry = Inl (ValueError ''Invalid isoformat string'')"
  by (simp add: token_from_json_def bad_entry_def parse_expires_at_def fromisoformat_def
      parse_isoformat_def digits_at_def is_digit_def)

lemma good_entry_token: "token_from_json L good_entry = Inr good_token"
  by (simp add: token_from_json_def good_entry_def parse_expires_at_def good_token_def)


lemma loaded_manager_tokens: "tokens loaded_manager = [(''good'', good_token)]"
  by (simp add: loaded_manager_def init_def store_path_def load_tokens_def Let_def
      half_good_disk_def half_good_file_def read_json_file_def good_entry_token bad_entry_fails)

lemma loaded_manager_facts:
  "map_of (tokens loaded_manager) ''good'' = Some good_token"
  "expires_at good_token = None"
  by (simp_all add: loaded_manager_tokens good_token_def)

lemma example_authenticated_wf: "wf_tokens (tokens example_authenticated)"
  by (simp add: example_authenticated_facts wf_tokens_def tok1_def noon_def valid_datetime_def
      storable_datetime_def
      days_in_month_def is_leap_def)

lemma two_services_eq:
  "two_services =
     \<lparr>tokens = [], configs = [''a'' \<mapsto> example_config, ''a:b'' \<mapsto> example_config],
      token_store_path = ''.oauth_tokens.json'',
      code_verifiers = None, disk = no_files, writable = all_writable, posted = []\<rparr>"
  by (simp add: two_services_def fresh_manager_eq add_service_config_def)

lemma collision_generate:
  "generate_authorization_url example_lib example_entropy two_services ''a:b'' (Some ''c'')
     = (Inr (collision_url, ''c''), collision_manager)"
  by (simp add: collision_manager_def run_def collision_calls_def two_services_def
      generate_authorization_url_def add_service_config_def Let_def collision_url_def
      challenge0_def verifier0_def)

lemma collision_manager_eq:
  "collision_manager =
     \<lparr>tokens = [], configs = [''a'' \<mapsto> example_config, ''a:b'' \<mapsto> example_config],
      token_store_path = ''.oauth_tokens.json'',
      code_verifiers = Some [''a:b:c'' \<mapsto> verifier0],
      disk = no_files, writable = all_writable, posted = []\<rparr>"
  by (simp add: collision_manager_def run_def collision_calls_def fresh_manager_eq
      generate_authorization_url_def add_service_config_def Let_def store_code_verifier_def
      verifier0_def verifier_key_def)

lemma collision_exchange:
  "fst (exchange_code_for_token example_lib noon reply_tok1 collision_manager
          ''a'' ''abc123'' ''b:c'') = Inr tok1"
  by (simp add: collision_manager_eq exchange_code_for_token_def get_code_verifier_def Let_def
      verifier_key_def post_def reply_tok1_def token_data_of_def raise_for_status_def
      token_of_reply_tok1)




lemma example_pending_run:
  "example_pending = run example_lib (init example_lib None None no_files all_writable) pending_calls"
  by (simp add: example_pending_def example_manager_def fresh_manager_def run_def
      pending_calls_def)

lemma pending_calls_keys:
  "issued_keys example_lib (init example_lib None None no_files all_writable) pending_calls
     = [verifier_key ''svc'' ''St4te_-x'']"
  by (simp add: pending_calls_def issued_key_def fresh_manager_def[symmetric] fresh_manager_eq
      add_service_config_def generate_authorization_url_def Let_def example_entropy_def)

section \<open>The authorization URL\<close>

text \<open>
  Claim C1. For a service with a registered config, \<open>generate_authorization_url\<close> returns
  a URL and a state such that the verifier dictionary holds a verifier under the key of
  (service name, returned state), and the URL's \<^verbatim>\<open>code_challenge\<close> parameter is the URL-safe
  base64 encoding, padding stripped, of the SHA-256 digest of that verifier: the URL is the
  authorization endpoint, \<^verbatim>\<open>?\<close>, and the encoded parameters, and it ends with
  \<^verbatim>\<open>&code_challenge=\<close>, the challenge as it is (it has only characters of the base64
  alphabet, none of which is quoted), and \<^verbatim>\<open>&code_challenge_method=S256\<close>.
\<close>

theorem generate_authorization_url_code_challenge:
  assumes "configs m name = Some config"
  shows "\<exists>url state m' verifier challenge.
           generate_authorization_url L R m name state_arg = (Inr (url, state), m') \<and>
           stored_verifier m' name state = Some verifier \<and>
           challenge = rstrip CHR ''='' (urlsafe_b64encode (sha256 L verifier)) \<and>
           set challenge \<subseteq> set b64_alphabet \<and>
           url = authorization_url config @ ''?'' @
                 urlencode (authorization_params config state challenge) \<and>
           url = authorization_url config @ ''?'' @
                 urlencode (leading_params config state) @
                 ''&code_challenge='' @ challenge @ ''&code_challenge_method=S256''"
proof -
  define state where "state = (case state_arg of None \<Rightarrow> token_urlsafe R
                        | Some s \<Rightarrow> if s = [] then token_urlsafe R else s)"
  define verifier where "verifier = rstrip CHR ''='' (urlsafe_b64encode (token_bytes R))"
  define challenge where "challenge = rstrip CHR ''='' (urlsafe_b64encode (sha256 L verifier))"
  define m' where "m' = store_code_verifier m name state verifier"
  define url where "url = authorization_url config @ ''?'' @ urlencode (authorization_params config state challenge)"
  have run: "generate_authorization_url L R m name state_arg = (Inr (url, state), m')"
    using assms by (simp add: generate_authorization_url_def Let_def state_def verifier_def challenge_def m'_def url_def)
  have stored: "stored_verifier m' name state = Some verifier"
    by (simp add: m'_def stored_verifier_def store_code_verifier_def)
  have alpha: "set challenge \<subseteq> set b64_alphabet"
    unfolding challenge_def by (rule rstrip_b64)
  have "url = authorization_url config @ ''?'' @
                 urlencode (leading_params config state) @
                 ''&code_challenge='' @ challenge @ ''&code_challenge_method=S256''"
    unfolding url_def by (simp only: urlencode_tail quote_plus_b64[OF alpha])
  with run stored alpha show ?thesis
    using challenge_def url_def by blast
qed

theorem generate_authorization_url_code_challenge_witness:
  "configs example_manager ''svc'' = Some example_config \<and>
   (\<exists>url state m' verifier challenge.
      generate_authorization_url example_lib example_entropy example_manager ''svc'' None
        = (Inr (url, state), m') \<and>
      stored_verifier m' ''svc'' state = Some verifier \<and>
      challenge = rstrip CHR ''='' (urlsafe_b64encode (sha256 example_lib verifier)) \<and>
      set challenge \<subseteq> set b64_alphabet \<and>
      url = authorization_url example_config @ ''?'' @
            urlencode (authorization_params example_config state challenge) \<and>
      url = authorization_url example_config @ ''?'' @
            urlencode (leading_params example_config state) @
            ''&code_challenge='' @ challenge @ ''&code_challenge_method=S256'')"
  using generate_authorization_url_code_challenge
          [OF example_manager_facts(1), of example_lib example_entropy None]
        example_manager_facts(1)
  by simp

section \<open>PKCE verifiers are used once\<close>

text \<open>
  Claim C2, as stated, fails in two ways. For a service that has no registered config the
  call ends at the first check with \<^verbatim>\<open>ValueError("Service ghost not configured")\<close>, before
  the verifier is looked up, and that is not one of the two state errors. And the verifier
  is stored under the string \<^verbatim>\<open>f"{service_name}:{state}"\<close>, which does not tell the pair
  (\<^verbatim>\<open>a:b\<close>, \<^verbatim>\<open>c\<close>) from the pair (\<^verbatim>\<open>a\<close>, \<^verbatim>\<open>b:c\<close>): once \<^verbatim>\<open>generate_authorization_url\<close>
  has produced the state \<^verbatim>\<open>c\<close> for the service \<^verbatim>\<open>a:b\<close>, an exchange for the service \<^verbatim>\<open>a\<close>
  with the state \<^verbatim>\<open>b:c\<close>, which no call has produced, finds that verifier and succeeds.
\<close>

theorem exchange_without_entry_counterexample:
  "exchange_code_for_token example_lib noon reply_tok1 fresh_manager
     ''ghost'' ''abc123'' ''St4te_-x''
     = (Inl (ValueError ''Service ghost not configured''), fresh_manager) \<and>
   stored_verifier fresh_manager ''ghost'' ''St4te_-x'' = None \<and>
   \<not> is_state_mismatch (ValueError ''Service ghost not configured'') \<and>
   collision_manager = run example_lib fresh_manager collision_calls \<and>
   issued_keys example_lib fresh_manager collision_calls = [verifier_key ''a:b'' ''c''] \<and>
   collision_calls =
     [Add_service_config ''a'' example_config,
      Add_service_config ''a:b'' example_config,
      Generate_authorization_url example_entropy ''a:b'' (Some ''c'')] \<and>
   generate_authorization_url example_lib example_entropy two_services ''a:b'' (Some ''c'')
     = (Inr (collision_url, ''c''), collision_manager) \<and>
   configs collision_manager ''a'' = Some example_config \<and>
   verifier_key ''a'' ''b:c'' = verifier_key ''a:b'' ''c'' \<and>
   fst (exchange_code_for_token example_lib noon reply_tok1 collision_manager
          ''a'' ''abc123'' ''b:c'') = Inr tok1"
proof -
  have a: "exchange_code_for_token example_lib noon reply_tok1 fresh_manager
     ''ghost'' ''abc123'' ''St4te_-x''
     = (Inl (ValueError ''Service ghost not configured''), fresh_manager)"
    by (simp add: fresh_manager_eq exchange_code_for_token_def not_configured_def)
  have b: "stored_verifier fresh_manager ''ghost'' ''St4te_-x'' = None"
    by (simp add: fresh_manager_eq stored_verifier_def)
  have c: "\<not> is_state_mismatch (ValueError ''Service ghost not configured'')"
    by (simp add: is_state_mismatch_def)
  have d: "collision_manager = run example_lib fresh_manager collision_calls"
    by (simp add: collision_manager_def)
  have e: "collision_calls =
     [Add_service_config ''a'' example_config,
      Add_service_config ''a:b'' example_config,
      Generate_authorization_url example_entropy ''a:b'' (Some ''c'')]"
    by (simp add: collision_calls_def)
  have f: "configs collision_manager ''a'' = Some example_config"
    by (simp add: collision_manager_eq)
  have g: "issued_keys example_lib fresh_manager collision_calls = [verifier_key ''a:b'' ''c'']"
    by (simp add: collision_calls_def issued_key_def fresh_manager_eq add_service_config_def
        generate_authorization_url_def Let_def)
  have h: "verifier_key ''a'' ''b:c'' = verifier_key ''a:b'' ''c''"
    by (simp add: verifier_key_def)
  show ?thesis
    by (intro conjI) (rule a b c d e f g h collision_generate collision_exchange)+
qed

text \<open>
  Claim C2, amended: for a service with a registered config, \<open>exchange_code_for_token\<close>
  with a (service, state) pair whose key has no verifier on record fails with one of the
  state errors of \<^verbatim>\<open>_get_code_verifier\<close> and changes nothing. The key has no verifier on
  record whenever, in the manager's history since its creation, no call of
  \<^verbatim>\<open>generate_authorization_url\<close> has returned for a service and with a state that have
  this key. And after any first call with a (service, state) pair, successful or not, a
  second call with the same pair fails with a state error, whatever code it carries and
  whatever the endpoint would reply.
\<close>

theorem exchange_needs_verifier:
  assumes "configs m name = Some config"
  shows "(stored_verifier m name state = None \<longrightarrow>
            (\<exists>e. exchange_code_for_token L now reply m name code state = (Inl e, m) \<and>
                 is_state_mismatch e)) \<and>
         (\<forall>path_arg env_store dsk wr calls.
            m = run L (init L path_arg env_store dsk wr) calls \<and>
            verifier_key name state
              \<notin> set (issued_keys L (init L path_arg env_store dsk wr) calls) \<longrightarrow>
              stored_verifier m name state = None) \<and>
         (\<exists>e. fst (exchange_code_for_token L now' reply'
                      (snd (exchange_code_for_token L now reply m name code state))
                      name code' state) = Inl e \<and>
              is_state_mismatch e)"
proof -
  let ?m1 = "snd (exchange_code_for_token L now reply m name code state)"
  have "configs ?m1 name = Some config" using assms by simp
  moreover have "stored_verifier ?m1 name state = None" by (rule exchange_consumes[OF assms])
  ultimately have "\<exists>e. exchange_code_for_token L now' reply' ?m1 name code' state = (Inl e, ?m1) \<and>
             is_state_mismatch e"
    by (rule exchange_no_verifier)
  then have second: "\<exists>e. fst (exchange_code_for_token L now' reply' ?m1 name code' state) = Inl e \<and>
              is_state_mismatch e"
    by auto
  have first: "stored_verifier m name state = None \<longrightarrow>
            (\<exists>e. exchange_code_for_token L now reply m name code state = (Inl e, m) \<and>
                 is_state_mismatch e)"
    using exchange_no_verifier[OF assms] by blast
  have link: "\<forall>path_arg env_store dsk wr calls.
            m = run L (init L path_arg env_store dsk wr) calls \<and>
            verifier_key name state
              \<notin> set (issued_keys L (init L path_arg env_store dsk wr) calls) \<longrightarrow>
              stored_verifier m name state = None"
    by (clarsimp simp: never_issued)
  show ?thesis using first link second by (intro conjI)
qed

theorem exchange_needs_verifier_witness:
  "configs example_pending ''svc'' = Some example_config \<and>
   example_pending
     = run example_lib (init example_lib None None no_files all_writable) pending_calls \<and>
   issued_keys example_lib (init example_lib None None no_files all_writable) pending_calls
     = [verifier_key ''svc'' ''St4te_-x''] \<and>
   verifier_key ''svc'' ''0ther''
     \<notin> set (issued_keys example_lib (init example_lib None None no_files all_writable)
              pending_calls) \<and>
   stored_verifier example_pending ''svc'' ''0ther'' = None \<and>
   (\<exists>e. exchange_code_for_token example_lib noon reply_tok1 example_pending
           ''svc'' ''abc123'' ''0ther'' = (Inl e, example_pending) \<and>
        is_state_mismatch e) \<and>
   fst (exchange_code_for_token example_lib noon reply_tok1 example_pending
          ''svc'' ''abc123'' ''St4te_-x'') = Inr tok1 \<and>
   (\<exists>e. fst (exchange_code_for_token example_lib two_pm reply_tok1
                (snd (exchange_code_for_token example_lib noon reply_tok1 example_pending
                        ''svc'' ''abc123'' ''St4te_-x''))
                ''svc'' ''abc123'' ''St4te_-x'') = Inl e \<and>
        is_state_mismatch e)"
proof -
  have k: "verifier_key ''svc'' ''0ther''
     \<notin> set (issued_keys example_lib (init example_lib None None no_files all_writable)
              pending_calls)"
    by (simp add: pending_calls_keys verifier_key_def)
  note other = exchange_needs_verifier [OF example_pending_facts(1),
          where state = "''0ther''" and L = example_lib and now = noon and reply = reply_tok1
            and code = "''abc123''" and now' = two_pm and reply' = reply_tok1
            and code' = "''abc123''"]
  note same = exchange_needs_verifier [OF example_pending_facts(1),
          where state = "''St4te_-x''" and L = example_lib and now = noon and reply = reply_tok1
            and code = "''abc123''" and now' = two_pm and reply' = reply_tok1
            and code' = "''abc123''"]
  have s: "stored_verifier example_pending ''svc'' ''0ther'' = None"
    using other example_pending_run k by blast
  have f: "\<exists>e. exchange_code_for_token example_lib noon reply_tok1 example_pending
           ''svc'' ''abc123'' ''0ther'' = (Inl e, example_pending) \<and>
        is_state_mismatch e"
    using other s by blast
  have t: "\<exists>e. fst (exchange_code_for_token example_lib two_pm reply_tok1
                (snd (exchange_code_for_token example_lib noon reply_tok1 example_pending
                        ''svc'' ''abc123'' ''St4te_-x''))
                ''svc'' ''abc123'' ''St4te_-x'') = Inl e \<and>
        is_state_mismatch e"
    using same by blast
  show ?thesis
    by (intro conjI)
       (rule example_pending_facts(1) example_pending_run pending_calls_keys k s f
             exchange_tok1 t)+
qed

section \<open>The verifier is consumed before the request\<close>

text \<open>
  Claim C10. When the service is configured and the state has a verifier on record,
  \<open>exchange_code_for_token\<close> removes the verifier and sends exactly one request, which
  carries it, whatever the endpoint then does. A failure of the endpoint (transport
  failure, error status, body that is not JSON) is the failure of the call, and a failed
  call leaves the token set and the token file as they were. A retry with the same state,
  with any code, fails with a state error and leaves the state as it is: no further
  request is sent.
\<close>

theorem exchange_consumes_verifier_first:
  assumes "configs m name = Some config" and "stored_verifier m name state = Some v"
  shows "\<exists>r m'. exchange_code_for_token L now reply m name code state = (r, m') \<and>
           stored_verifier m' name state = None \<and>
           posted m' = posted m @ [exchange_request config code v] \<and>
           (\<forall>e. token_data_of reply = Inl e \<longrightarrow> r = Inl e) \<and>
           (\<forall>e. r = Inl e \<longrightarrow> tokens m' = tokens m \<and> disk m' = disk m) \<and>
           (\<exists>e. exchange_code_for_token L now' reply' m' name code' state = (Inl e, m') \<and>
                is_state_mismatch e)"
proof -
  obtain r m' where run: "exchange_code_for_token L now reply m name code state = (r, m')"
    and gone: "stored_verifier m' name state = None"
    and cfg: "configs m' = configs m"
    and sent: "posted m' = posted m @
             [\<lparr>url = token_url config, data = exchange_data config code v,
               headers = form_headers\<rparr>]"
    and res: "case r of
              Inl e \<Rightarrow> tokens m' = tokens m \<and> disk m' = disk m \<and>
                (token_data_of reply = Inl e \<or>
                 (\<exists>j. token_data_of reply = Inr j \<and> token_of_reply L now j = Inl e))
            | Inr t \<Rightarrow> tokens m' = AList.update name t (tokens m) \<and>
                (\<exists>j. token_data_of reply = Inr j \<and> token_of_reply L now j = Inr t)"
    using exchange_with_verifier[OF assms, of L now reply code] by blast
  have "configs m' name = Some config" using cfg assms(1) by simp
  then have retry: "\<exists>e. exchange_code_for_token L now' reply' m' name code' state = (Inl e, m') \<and>
                is_state_mismatch e"
    using gone by (rule exchange_no_verifier)
  have "\<forall>e. token_data_of reply = Inl e \<longrightarrow> r = Inl e"
    using res by (cases r) auto
  moreover have "\<forall>e. r = Inl e \<longrightarrow> tokens m' = tokens m \<and> disk m' = disk m"
    using res by auto
  ultimately show ?thesis using run gone sent retry by (auto simp: exchange_request_def)
qed

theorem exchange_consumes_verifier_first_witness:
  "configs example_pending ''svc'' = Some example_config \<and>
   stored_verifier example_pending ''svc'' ''St4te_-x'' = Some verifier0 \<and>
   token_data_of Transport_failure = Inl ConnectionError \<and>
   (\<exists>m'. exchange_code_for_token example_lib noon Transport_failure example_pending
            ''svc'' ''abc123'' ''St4te_-x'' = (Inl ConnectionError, m') \<and>
         stored_verifier m' ''svc'' ''St4te_-x'' = None \<and>
         posted m' = posted example_pending @ [exchange_request example_config ''abc123'' verifier0] \<and>
         tokens m' = tokens example_pending \<and> disk m' = disk example_pending \<and>
         (\<exists>e. exchange_code_for_token example_lib two_pm reply_tok1 m'
                 ''svc'' ''abc123'' ''St4te_-x'' = (Inl e, m') \<and>
              is_state_mismatch e))"
proof -
  have t: "token_data_of Transport_failure = Inl ConnectionError"
    by (simp add: token_data_of_def)
  have "\<exists>r m'. exchange_code_for_token example_lib noon Transport_failure example_pending
            ''svc'' ''abc123'' ''St4te_-x'' = (r, m') \<and>
           stored_verifier m' ''svc'' ''St4te_-x'' = None \<and>
           posted m' = posted example_pending @ [exchange_request example_config ''abc123'' verifier0] \<and>
           (\<forall>e. token_data_of Transport_failure = Inl e \<longrightarrow> r = Inl e) \<and>
           (\<forall>e. r = Inl e \<longrightarrow> tokens m' = tokens example_pending \<and> disk m' = disk example_pending) \<and>
           (\<exists>e. exchange_code_for_token example_lib two_pm reply_tok1 m'
                 ''svc'' ''abc123'' ''St4te_-x'' = (Inl e, m') \<and>
                is_state_mismatch e)"
    by (rule exchange_consumes_verifier_first [OF example_pending_facts(1,2)])
  then show ?thesis
    using example_pending_facts(1,2) by (simp add: t)
qed

section \<open>A failed exchange stores nothing\<close>

text \<open>
  Claim C4, as stated, fails for a status that is neither a success nor an error to
  \<^verbatim>\<open>raise_for_status\<close>: a reply with status 300 whose body holds an access token passes
  the check, and its token is stored.
\<close>

theorem exchange_status_300_counterexample:
  "reply_300 = Response 300 (Some (JObject [(''access_token'', JString ''tok1'')])) \<and>
   tokens example_pending = [] \<and>
   fst (exchange_code_for_token example_lib noon reply_300 example_pending
          ''svc'' ''abc123'' ''St4te_-x'') = Inr tok_300 \<and>
   tokens (snd (exchange_code_for_token example_lib noon reply_300 example_pending
                  ''svc'' ''abc123'' ''St4te_-x'')) = [(''svc'', tok_300)]"
  by (simp add: reply_300_def example_pending_eq exchange_code_for_token_def
      get_code_verifier_def Let_def post_def token_data_of_def raise_for_status_def
      token_of_reply_def expiration_time_def tok_300_def)

text \<open>
  Claim C4, amended: \<open>exchange_code_for_token\<close> is atomic on failure. Whenever the call
  fails, for whatever reason, the token set and the token file are as before. And it does
  fail when the token endpoint replies with a status from 400 to 599, or with a body that
  is not JSON, or with JSON that has no \<^verbatim>\<open>access_token\<close> to read; if the service is
  configured and the state has its verifier, the error is then the \<open>HTTPError\<close> of the
  status, the \<open>JSONDecodeError\<close> of the body, or the error of building the token from the
  JSON, in this order.
\<close>

theorem exchange_failure_is_atomic:
  "\<exists>r m'. exchange_code_for_token L now reply m name code state = (r, m') \<and>
      ((\<exists>e. r = Inl e) \<longrightarrow> tokens m' = tokens m \<and> disk m' = disk m) \<and>
      (\<forall>status body.
         reply = Response status body \<and>
         (raise_for_status status \<or> body = None \<or>
          (\<exists>j e. body = Some j \<and> py_getitem j ''access_token'' = Inl e)) \<longrightarrow>
         (\<exists>e. r = Inl e \<and>
            (configs m name \<noteq> None \<and> stored_verifier m name state \<noteq> None \<longrightarrow>
               (raise_for_status status \<longrightarrow> e = HTTPError status) \<and>
               (\<not> raise_for_status status \<and> body = None \<longrightarrow> e = JSONDecodeError) \<and>
               (\<forall>j. \<not> raise_for_status status \<and> body = Some j \<longrightarrow>
                    token_of_reply L now j = Inl e))))"
proof (cases "configs m name")
  case None
  then show ?thesis using exchange_unconfigured[OF None, of L now reply code state] by simp
next
  case (Some config)
  note cfg = this
  show ?thesis
  proof (cases "stored_verifier m name state")
    case None
    then show ?thesis using exchange_no_verifier[OF cfg None, of L now reply code] by auto
  next
    case (Some v)
    obtain r m' where run: "exchange_code_for_token L now reply m name code state = (r, m')"
      and fail: "case r of
              Inl e \<Rightarrow> tokens m' = tokens m \<and> disk m' = disk m \<and>
                (token_data_of reply = Inl e \<or>
                 (\<exists>j. token_data_of reply = Inr j \<and> token_of_reply L now j = Inl e))
            | Inr t \<Rightarrow> tokens m' = AList.update name t (tokens m) \<and>
                (\<exists>j. token_data_of reply = Inr j \<and> token_of_reply L now j = Inr t)"
      using exchange_with_verifier[OF cfg Some, of L now reply code] by blast
    have atomic: "(\<exists>e. r = Inl e) \<longrightarrow> tokens m' = tokens m \<and> disk m' = disk m"
      using fail by auto
    have bad: "\<exists>e. r = Inl e \<and>
               (raise_for_status status \<longrightarrow> e = HTTPError status) \<and>
               (\<not> raise_for_status status \<and> body = None \<longrightarrow> e = JSONDecodeError) \<and>
               (\<forall>j. \<not> raise_for_status status \<and> body = Some j \<longrightarrow>
                    token_of_reply L now j = Inl e)"
      if h: "reply = Response status body"
        "raise_for_status status \<or> body = None \<or>
          (\<exists>j e. body = Some j \<and> py_getitem j ''access_token'' = Inl e)"
      for status body
    proof (cases "raise_for_status status")
      case True
      then show ?thesis using fail h(1) by (cases r) (auto simp: token_data_of_cases)
    next
      case False
      note ok = this
      show ?thesis
      proof (cases body)
        case None
        then show ?thesis using fail h(1) ok by (cases r) (auto simp: token_data_of_cases)
      next
        case (Some j)
        then obtain e0 where "py_getitem j ''access_token'' = Inl e0"
          using h(2) ok by auto
        then obtain e' where "token_of_reply L now j = Inl e'"
          using token_of_reply_needs_access_token[of j e0 L now] by blast
        then show ?thesis using fail h(1) ok Some by (cases r) (auto simp: token_data_of_cases)
      qed
    qed
    show ?thesis using run atomic bad by blast
  qed
qed

theorem exchange_failure_is_atomic_witness:
  "reply_500 = Response 500 None \<and> raise_for_status 500 \<and>
   configs example_pending ''svc'' \<noteq> None \<and>
   stored_verifier example_pending ''svc'' ''St4te_-x'' \<noteq> None \<and>
   (\<exists>m'. exchange_code_for_token example_lib noon reply_500 example_pending
            ''svc'' ''abc123'' ''St4te_-x'' = (Inl (HTTPError 500), m') \<and>
         tokens m' = tokens example_pending \<and> disk m' = disk example_pending) \<and>
   reply_no_token = Response 200 (Some (JObject [(''error'', JString ''invalid_grant'')])) \<and>
   py_getitem (JObject [(''error'', JString ''invalid_grant'')]) ''access_token''
     = Inl (KeyError ''access_token'') \<and>
   (\<exists>e m'. exchange_code_for_token example_lib noon reply_no_token example_pending
            ''svc'' ''abc123'' ''St4te_-x'' = (Inl e, m') \<and>
         tokens m' = tokens example_pending \<and> disk m' = disk example_pending)"
proof -
  have a: "reply_500 = Response 500 None" "raise_for_status 500"
    by (simp_all add: reply_500_def raise_for_status_def)
  have b: "reply_no_token = Response 200 (Some (JObject [(''error'', JString ''invalid_grant'')]))"
    "py_getitem (JObject [(''error'', JString ''invalid_grant'')]) ''access_token''
       = Inl (KeyError ''access_token'')"
    "\<not> raise_for_status 200"
    by (simp_all add: reply_no_token_def raise_for_status_def)
  have c: "configs example_pending ''svc'' \<noteq> None"
    "stored_verifier example_pending ''svc'' ''St4te_-x'' \<noteq> None"
    by (simp_all add: example_pending_facts)
  have first: "\<exists>m'. exchange_code_for_token example_lib noon reply_500 example_pending
            ''svc'' ''abc123'' ''St4te_-x'' = (Inl (HTTPError 500), m') \<and>
         tokens m' = tokens example_pending \<and> disk m' = disk example_pending"
    using exchange_failure_is_atomic
            [of example_lib noon reply_500 example_pending "''svc''" "''abc123''" "''St4te_-x''"]
    by (simp add: a c)
  have second: "\<exists>e m'. exchange_code_for_token example_lib noon reply_no_token example_pending
            ''svc'' ''abc123'' ''St4te_-x'' = (Inl e, m') \<and>
         tokens m' = tokens example_pending \<and> disk m' = disk example_pending"
    using exchange_failure_is_atomic
            [of example_lib noon reply_no_token example_pending "''svc''" "''abc123''" "''St4te_-x''"]
    by (simp add: b c) blast
  show ?thesis using a b(1,2) c first second by simp
qed

section \<open>Looking up a valid token\<close>




text \<open>
  Claim C8. A token without an expiry is returned as it is, with no refresh and no change
  of state, whatever the clock says. A token whose expiry the clock has reached is never
  returned as it is: whenever \<open>get_valid_token\<close> returns a token for it, that token is the
  result of a successful refresh, for which a request was sent. The same holds for an
  expiry that cannot be compared with the clock.
\<close>

theorem get_valid_token_expiry_rule:
  "(\<forall>token. map_of (tokens m) name = Some token \<and> expires_at token = None \<longrightarrow>
        get_valid_token L now now' reply m name = (Inr (Some token), m)) \<and>
   (\<forall>token e t m'.
        map_of (tokens m) name = Some token \<and> expires_at token = Some e \<and>
        dt_ge now e \<noteq> Inr False \<and>
        get_valid_token L now now' reply m name = (Inr (Some t), m') \<longrightarrow>
          refresh_token_op L now' reply m name = (Inr t, m') \<and>
          (\<exists>config. configs m name = Some config \<and>
             posted m' = posted m @ [refresh_request config token]))"
proof (intro conjI allI impI)
  fix token
  assume "map_of (tokens m) name = Some token \<and> expires_at token = None"
  then show "get_valid_token L now now' reply m name = (Inr (Some token), m)"
    by (simp add: get_valid_token_def is_expired_def)
next
  fix token e t m'
  assume h: "map_of (tokens m) name = Some token \<and> expires_at token = Some e \<and>
        dt_ge now e \<noteq> Inr False \<and>
        get_valid_token L now now' reply m name = (Inr (Some t), m')"
  have tok: "map_of (tokens m) name = Some token" using h by simp
  have got: "get_valid_token L now now' reply m name = (Inr (Some t), m')" using h by simp
  have cmp: "is_expired now token = dt_ge now e" using h by (simp add: is_expired_def)
  have ex: "is_expired now token = Inr True"
  proof (cases "dt_ge now e")
    case (Inl err)
    then have "get_valid_token L now now' reply m name = (Inl err, m)"
      using tok cmp by (simp add: get_valid_token_def)
    then show ?thesis using got by simp
  next
    case (Inr v)
    then show ?thesis using h cmp by (cases v) simp_all
  qed
  obtain r m1 where run: "refresh_token_op L now' reply m name = (r, m1)"
    by (cases "refresh_token_op L now' reply m name")
  have "get_valid_token L now now' reply m name =
          (case r of Inl e \<Rightarrow> (Inr None, m1) | Inr t \<Rightarrow> (Inr (Some t), m1))"
    using tok ex run by (simp add: get_valid_token_def)
  then have "r = Inr t \<and> m1 = m'"
    using got by (cases r) simp_all
  then show r: "refresh_token_op L now' reply m name = (Inr t, m')" using run by simp
  show "\<exists>config. configs m name = Some config \<and>
             posted m' = posted m @ [refresh_request config token]"
    using refresh_success_token[OF r] h by auto
qed

theorem get_valid_token_expiry_rule_witness:
  "map_of (tokens loaded_manager) ''good'' = Some good_token \<and>
   expires_at good_token = None \<and>
   get_valid_token example_lib two_pm two_pm reply_500 loaded_manager ''good''
     = (Inr (Some good_token), loaded_manager) \<and>
   map_of (tokens example_authenticated) ''svc'' = Some tok1 \<and>
   expires_at tok1 = Some (noon\<lparr>hour := 13\<rparr>) \<and>
   dt_ge two_pm (noon\<lparr>hour := 13\<rparr>) = Inr True \<and>
   get_valid_token example_lib two_pm two_pm reply_tok2 example_authenticated ''svc''
     = (Inr (Some tok2), example_refreshed) \<and>
   refresh_token_op example_lib two_pm reply_tok2 example_authenticated ''svc''
     = (Inr tok2, example_refreshed) \<and>
   (\<exists>config. configs example_authenticated ''svc'' = Some config \<and>
      posted example_refreshed = posted example_authenticated @ [refresh_request config tok1])"
proof -
  note rule = get_valid_token_expiry_rule
  have got: "get_valid_token example_lib two_pm two_pm reply_tok2 example_authenticated ''svc''
     = (Inr (Some tok2), example_refreshed)"
    by (simp add: get_valid_token_def example_authenticated_facts(2) is_expired_def
        tok1_facts(1,3) refresh_tok2_eq)
  have a: "get_valid_token example_lib two_pm two_pm reply_500 loaded_manager ''good''
     = (Inr (Some good_token), loaded_manager)"
    using rule[of loaded_manager "''good''" example_lib two_pm two_pm reply_500]
      loaded_manager_facts by simp
  have b: "refresh_token_op example_lib two_pm reply_tok2 example_authenticated ''svc''
     = (Inr tok2, example_refreshed) \<and>
   (\<exists>config. configs example_authenticated ''svc'' = Some config \<and>
      posted example_refreshed = posted example_authenticated @ [refresh_request config tok1])"
    using rule[of example_authenticated "''svc''" example_lib two_pm two_pm reply_tok2]
      example_authenticated_facts(2) tok1_facts(1,3) got by simp
  show ?thesis
    using a b got loaded_manager_facts example_authenticated_facts(2) tok1_facts(1,3) by simp
qed

section \<open>Refreshing a token\<close>



section \<open>Revoking a token\<close>

text \<open>
  Claim C9. \<open>revoke_token\<close> has no failure: the only step that can fail is the write in
  \<^verbatim>\<open>_save_tokens\<close>, which catches it. After the call the service has no token, the tokens
  of the other services are as before, a second call changes nothing, and a call for a
  service without a token changes nothing.
\<close>

theorem revoke_token_idempotent:
  "map_of (tokens (revoke_token m name)) name = None \<and>
   (\<forall>other. other \<noteq> name \<longrightarrow>
      map_of (tokens (revoke_token m name)) other = map_of (tokens m) other) \<and>
   revoke_token (revoke_token m name) name = revoke_token m name \<and>
   (map_of (tokens m) name = None \<longrightarrow> revoke_token m name = m)"
proof -
  have gone: "map_of (tokens (revoke_token m name)) name = None"
    by (simp add: revoke_token_def AList.delete_conv')
  have others: "\<forall>other. other \<noteq> name \<longrightarrow>
      map_of (tokens (revoke_token m name)) other = map_of (tokens m) other"
    by (simp add: revoke_token_def AList.delete_conv')
  have noop: "map_of (tokens m') name = None \<Longrightarrow> revoke_token m' name = m'" for m'
    by (simp add: revoke_token_def)
  show ?thesis using gone others noop[OF gone] noop[of m] by blast
qed

theorem revoke_token_idempotent_witness:
  "map_of (tokens (revoke_token example_authenticated ''svc'')) ''svc'' = None \<and>
   ''other'' \<noteq> ''svc'' \<and>
   map_of (tokens (revoke_token example_authenticated ''svc'')) ''other''
     = map_of (tokens example_authenticated) ''other'' \<and>
   revoke_token (revoke_token example_authenticated ''svc'') ''svc''
     = revoke_token example_authenticated ''svc'' \<and>
   map_of (tokens example_manager) ''svc'' = None \<and>
   revoke_token example_manager ''svc'' = example_manager"
  using revoke_token_idempotent[of example_authenticated "''svc''"]
        revoke_token_idempotent[of example_manager "''svc''"]
        example_manager_facts(3)
  by simp

section \<open>The token file\<close>

text \<open>
  Claim C7. When persistence is on (the path is not empty) and the file can be written,
  saving a token set and then starting a new manager on the same file system gives back the
  same token set: the same services in the same order, each with the same access token,
  refresh token, expiry, token type and scope. The token set is any that a Python
  \<^verbatim>\<open>dict\<close> of tokens can be (\<open>wf_tokens\<close>), with naive expiries, as the manager computes
  them, or aware ones.
\<close>

theorem save_then_restart_roundtrip:
  assumes "token_store_path m \<noteq> []" "writable m (token_store_path m)" "wf_tokens (tokens m)"
  shows "tokens (restart L (save_tokens m)) = tokens m"
proof -
  have "disk (save_tokens m) (token_store_path m) =
        Some (Document (JObject (serialize_tokens (tokens m))))"
    using assms(1,2) by (simp add: save_tokens_def write_file_def)
  then show ?thesis
    using assms(1) load_after_save[OF assms(3)]
    by (simp add: restart_def init_def store_path_def load_tokens_def read_json_file_def Let_def)
qed

theorem save_then_restart_roundtrip_witness:
  "token_store_path example_authenticated \<noteq> [] \<and>
   writable example_authenticated (token_store_path example_authenticated) \<and>
   wf_tokens (tokens example_authenticated) \<and>
   tokens (restart example_lib (save_tokens example_authenticated)) = [(''svc'', tok1)]"
proof -
  have h: "token_store_path example_authenticated \<noteq> []"
    "writable example_authenticated (token_store_path example_authenticated)"
    by (simp_all add: example_authenticated_facts all_writable_def)
  show ?thesis
    using save_then_restart_roundtrip[OF h example_authenticated_wf, of example_lib]
      h example_authenticated_wf
    by (simp add: example_authenticated_facts(3))
qed




end
